theory Spec2Isabelle
  imports Complex_Main "HOL-Library.AList" "HOL-Library.Char_ord" "HOL-Library.List_Lexorder"
begin

section \<open>Values of the script\<close>

text \<open>
  The script \<^verbatim>\<open>main.py\<close> builds one JSON document out of Python dictionaries, lists,
  integers, floats and strings. The document is modelled as the tree below. A dictionary is
  an association list in insertion order, which is the order Python keeps and
  \<^verbatim>\<open>json.dump\<close> writes. Python's floats are idealised as real numbers: the development is
  about which formula is computed, not about rounding.
\<close>

datatype json =
    JNull
  | JBool bool
  | JInt int
  | JFloat real
  | JStr string
  | JList "json list"
  | JDict "(string \<times> json) list"

text \<open>\<^verbatim>\<open>d[k]\<close> on a dictionary; \<open>None\<close> where Python raises \<^verbatim>\<open>KeyError\<close>.\<close>

fun jget :: "json \<Rightarrow> string \<Rightarrow> json option" where
  "jget (JDict kvs) k = map_of kvs k"
| "jget _ k = None"

text \<open>\<^verbatim>\<open>data.update(other)\<close>: every pair of \<open>other\<close>, in order, is stored into \<open>data\<close>.\<close>

definition dict_update :: "(string \<times> json) list \<Rightarrow> (string \<times> json) list \<Rightarrow> (string \<times> json) list" where
  "dict_update data other = fold (\<lambda>(k, v). AList.update k v) other data"

text \<open>The exceptions the script raises itself or lets escape from an indexing, an
  unpacking, an attribute access or a directory listing.\<close>

datatype error =
    FileNotFoundError string
  | ValueError string
  | IndexError
  | AttributeError
  | OSError

text \<open>\<^verbatim>\<open>enumerate(xs, start=n)\<close>.\<close>

fun py_enumerate :: "int \<Rightarrow> 'a list \<Rightarrow> (int \<times> 'a) list" where
  "py_enumerate n [] = []"
| "py_enumerate n (x # xs) = (n, x) # py_enumerate (n + 1) xs"

text \<open>Indexing a sequence with a Python integer: a negative index counts from the end,
  an index outside \<open>[-n, n)\<close> raises \<^verbatim>\<open>IndexError\<close>.\<close>

definition py_index :: "'a list \<Rightarrow> int \<Rightarrow> error + 'a" where
  "py_index xs i =
     (if 0 \<le> i \<and> i < int (length xs) then Inr (xs ! nat i)
      else if - int (length xs) \<le> i \<and> i < 0 then Inr (xs ! nat (int (length xs) + i))
      else Inl IndexError)"

text \<open>\<^verbatim>\<open>int(v)\<close> on a float truncates towards zero.\<close>

definition py_int :: "real \<Rightarrow> int" where
  "py_int v = (if 0 \<le> v then \<lfloor>v\<rfloor> else \<lceil>v\<rceil>)"

text \<open>\<^verbatim>\<open>math.degrees(v)\<close> multiplies by the constant \<open>180 / pi\<close>.\<close>

definition degrees :: "real \<Rightarrow> real" where
  "degrees v = v * (180 / pi)"

section \<open>Strings and paths\<close>

text \<open>
  Strings are byte strings. \<^verbatim>\<open>str.lower\<close> is modelled on the letters \<open>A\<close> to \<open>Z\<close>, which
  are the only characters whose lower case is one of the letters of the three image
  suffixes. The path functions are those of \<^verbatim>\<open>posixpath\<close>.
\<close>

definition lower_char :: "char \<Rightarrow> char" where
  "lower_char c =
     (case map_of (zip ''ABCDEFGHIJKLMNOPQRSTUVWXYZ'' ''abcdefghijklmnopqrstuvwxyz'') c of
        Some l \<Rightarrow> l
      | None \<Rightarrow> c)"

definition lower :: "string \<Rightarrow> string" where
  "lower s = map lower_char s"

definition endswith :: "string \<Rightarrow> string \<Rightarrow> bool" where
  "endswith s suf = (length suf \<le> length s \<and> drop (length s - length suf) s = suf)"

definition startswith :: "string \<Rightarrow> string \<Rightarrow> bool" where
  "startswith s pre = (take (length pre) s = pre)"

text \<open>\<^verbatim>\<open>s.rfind(c)\<close>: the highest index of \<open>c\<close> in \<open>s\<close>, or \<open>-1\<close>.\<close>

definition rfind :: "string \<Rightarrow> char \<Rightarrow> int" where
  "rfind s c =
     (if c \<in> set s then int (length s) - 1 - int (length (takeWhile (\<lambda>x. x \<noteq> c) (rev s)))
      else - 1)"

definition curdir :: string where
  "curdir = ''.''"

text \<open>\<^verbatim>\<open>os.path.join(a, b)\<close>; a call with three arguments joins from the left.\<close>

definition join :: "string \<Rightarrow> string \<Rightarrow> string" where
  "join a b =
     (if startswith b ''/'' then b
      else if a = [] \<or> endswith a ''/'' then a @ b
      else a @ ''/'' @ b)"

definition basename :: "string \<Rightarrow> string" where
  "basename p = (let i = rfind p CHR ''/'' + 1 in drop (nat i) p)"

text \<open>\<^verbatim>\<open>os.path.splitext(p)\<close>: the split is at the last dot, when that dot comes after the
  last separator and some character between the two is not a dot.\<close>

definition splitext :: "string \<Rightarrow> string \<times> string" where
  "splitext p =
     (let sepIndex = rfind p CHR ''/'';
          dotIndex = rfind p CHR ''.''
      in if dotIndex > sepIndex \<and>
            list_ex (\<lambda>c. c \<noteq> CHR ''.'')
              (take (nat dotIndex - nat (sepIndex + 1)) (drop (nat (sepIndex + 1)) p))
         then (take (nat dotIndex) p, drop (nat dotIndex) p)
         else (p, []))"

text \<open>The decimal rendering of a length inside an f-string.\<close>

definition digit_char :: "nat \<Rightarrow> char" where
  "digit_char d = ''0123456789'' ! d"

fun str_nat :: "nat \<Rightarrow> string" where
  "str_nat n =
     (if n < 10 then [digit_char n]
      else str_nat (n div 10) @ [digit_char (n mod 10)])"

declare str_nat.simps [simp del]

section \<open>The detector's results and the configuration\<close>

text \<open>
  What the script reads of one prediction result: its image path, the original shape
  (height, width), and the oriented boxes, which are absent (\<open>None\<close>) when the model is not
  an oriented-box model. \<open>cls\<close> holds one class value per box and \<open>xywhr\<close> one row per box.
  The script reads nothing else of a result; \<open>other_detections\<close> says whether the result
  carries detections of another kind (plain boxes, class probabilities), which matters only
  to the label file the library writes for a result without oriented boxes.
\<close>

record OBB =
  cls :: "real list"
  xywhr :: "real list list"

record result =
  path :: string
  orig_shape :: "int \<times> int"
  obb :: "OBB option"
  other_detections :: bool

text \<open>The value under the key \<^verbatim>\<open>labels\<close>: a list of names, or something else, kept as its
  rendering.\<close>

datatype labels_value = LabelList "string list" | NotAList string

text \<open>\<^verbatim>\<open>constants.yaml\<close> after parsing, with the types the script expects of its paths and
  flags.\<close>

record constants =
  model_path :: string
  images_path :: string
  save_annotations_path :: "string option"
  labels :: labels_value
  save_image :: bool
  save_annotation :: bool

text \<open>
  The world outside the script: the answers of the file system and the results the
  detector yields for a model file and a list of image paths. \<open>listdir\<close> is \<open>None\<close> where
  the listing raises. Library and system calls that write are taken to succeed.
\<close>

record env =
  path_exists :: "string \<Rightarrow> bool"
  path_isfile :: "string \<Rightarrow> bool"
  listdir :: "string \<Rightarrow> string list option"
  predict :: "string \<Rightarrow> string list \<Rightarrow> result list"

text \<open>What a run does to the outside, in order. \<open>SaveImage\<close> and \<open>SaveTxt\<close> are the calls
  \<^verbatim>\<open>result.save(filename=p)\<close> and \<^verbatim>\<open>result.save_txt(txt_file=p)\<close>; the second keeps the
  result it is called on, since the library decides from it whether a file is written.\<close>

datatype event =
    Print string
  | LogDebug string
  | MakeDirs string
  | LoadModel string
  | Predict "string list"
  | SaveImage string
  | SaveTxt string result
  | WriteJson string json

section \<open>The conversion of one oriented box\<close>

definition calculate_bbox :: "int \<Rightarrow> int \<Rightarrow> real list \<Rightarrow> real list \<Rightarrow> error + json" where
  "calculate_bbox bbox_id img_id r_labels r_xywhr =
     (case py_index r_labels (bbox_id - 1) of
        Inl e \<Rightarrow> Inl e
      | Inr label \<Rightarrow>
          (let category_id = py_int label + 1 in
           case r_xywhr of
             [x, y, width, height, rotation0] \<Rightarrow>
               (let rotation = degrees rotation0;
                    area = width * height
                in Inr (JDict
                     [(''id'', JInt bbox_id),
                      (''image_id'', JInt img_id),
                      (''category_id'', JInt category_id),
                      (''segmentation'', JList []),
                      (''area'', JFloat area),
                      (''bbox'', JList [JFloat (x - width / 2), JFloat (y - height / 2),
                                        JFloat width, JFloat height]),
                      (''iscrowd'', JInt 0),
                      (''attributes'', JDict [(''occluded'', JBool False),
                                              (''rotation'', JFloat rotation)])]))
           | _ \<Rightarrow> Inl (ValueError ''values to unpack'')))"

section \<open>The script\<close>

text \<open>The inner loop of \<^verbatim>\<open>main\<close>: one annotation per row of \<open>xywhr\<close>, the box id counting
  from the value it is started with.\<close>

fun bbox_loop :: "int \<Rightarrow> int \<Rightarrow> real list \<Rightarrow> real list list \<Rightarrow> json list \<Rightarrow> error + json list" where
  "bbox_loop bid i r_cls [] annotations = Inr annotations"
| "bbox_loop bid i r_cls (r_xywhr # rest) annotations =
     (case calculate_bbox bid i r_cls r_xywhr of
        Inl e \<Rightarrow> Inl e
      | Inr new_annotation \<Rightarrow> bbox_loop (bid + 1) i r_cls rest (annotations @ [new_annotation]))"

definition new_image :: "int \<Rightarrow> result \<Rightarrow> json" where
  "new_image i r =
     JDict [(''id'', JInt i),
            (''width'', JInt (snd (orig_shape r))),
            (''height'', JInt (fst (orig_shape r))),
            (''file_name'', JStr (basename (path r))),
            (''license'', JInt 0),
            (''flickr_url'', JStr []),
            (''coco_url'', JStr []),
            (''date_captured'', JInt 0)]"

text \<open>The two optional save calls for one result: the annotated image under the name of the
  source image, and the label file under that name with the extension replaced.\<close>

definition save_result :: "bool \<Rightarrow> bool \<Rightarrow> string \<Rightarrow> string \<Rightarrow> result \<Rightarrow> event list" where
  "save_result sv_image sv_txt save_image_path save_txt_file_path r =
     (if sv_image then [SaveImage (join save_image_path (basename (path r)))] else []) @
     (if sv_txt
      then [SaveTxt (join save_txt_file_path (fst (splitext (basename (path r))) @ ''.txt'')) r]
      else [])"

text \<open>The loop over the results. It returns the events so far with either the exception
  that ended it or the two lists it has filled.\<close>

fun results_loop ::
  "bool \<Rightarrow> bool \<Rightarrow> string \<Rightarrow> string \<Rightarrow> int \<Rightarrow> result list \<Rightarrow> event list \<Rightarrow> json list \<Rightarrow> json list
     \<Rightarrow> event list \<times> (error + json list \<times> json list)" where
  "results_loop sv_image sv_txt save_image_path save_txt_file_path i [] tr images annotations =
     (tr, Inr (images, annotations))"
| "results_loop sv_image sv_txt save_image_path save_txt_file_path i (r # rs) tr images annotations =
     (let tr' = tr @ save_result sv_image sv_txt save_image_path save_txt_file_path r;
          images' = images @ [new_image i r]
      in case obb r of
           None \<Rightarrow> (tr', Inl AttributeError)
         | Some b \<Rightarrow>
             (case bbox_loop 1 i (cls b) (xywhr b) annotations of
                Inl e \<Rightarrow> (tr', Inl e)
              | Inr annotations' \<Rightarrow>
                  results_loop sv_image sv_txt save_image_path save_txt_file_path
                    (i + 1) rs tr' images' annotations'))"

text \<open>The header and the category list of the document.\<close>

definition coco_header :: "(string \<times> json) list" where
  "coco_header =
     [(''licenses'', JList [JDict [(''name'', JStr []), (''id'', JInt 0), (''url'', JStr [])]]),
      (''info'', JDict [(''contributor'', JStr []), (''date_created'', JStr []),
                        (''description'', JStr []), (''url'', JStr []),
                        (''version'', JStr []), (''year'', JStr [])])]"

definition categories_of :: "string list \<Rightarrow> json list" where
  "categories_of ls =
     map (\<lambda>(i, label). JDict [(''id'', JInt i), (''name'', JStr label), (''supercategory'', JStr [])])
       (py_enumerate 1 ls)"

text \<open>The selection of the image files.\<close>

definition is_image_name :: "string \<Rightarrow> bool" where
  "is_image_name img = list_ex (endswith (lower img)) [''.jpg'', ''.jpeg'', ''.png'']"

definition load_images :: "env \<Rightarrow> string \<Rightarrow> string list \<Rightarrow> string list" where
  "load_images os dir names =
     sort (map (join dir)
       (filter (\<lambda>img. path_isfile os (join dir img) \<and> is_image_name img) names))"

text \<open>\<^verbatim>\<open>main\<close>, from the parsed configuration on. The result is the list of events of the
  run and either the exception that ended it or \<open>()\<close>.\<close>

definition main :: "env \<Rightarrow> constants \<Rightarrow> event list \<times> (error + unit)" where
  "main os C =
     (if \<not> path_exists os (model_path C) then
        ([Print (''Model path not found: '' @ model_path C)],
         Inl (FileNotFoundError (''Model path not found: '' @ model_path C @ '' was not found'')))
      else if \<not> path_exists os (images_path C) then
        ([Print (''Images path not found: '' @ images_path C)],
         Inl (FileNotFoundError (''Images path not found: '' @ images_path C @ '' was not found'')))
      else
        (case (case save_annotations_path C of
                 None \<Rightarrow> None
               | Some p \<Rightarrow> if \<not> path_exists os p then Some p else None) of
           Some p \<Rightarrow>
             ([Print (''Save annotations path not found: '' @ p)],
              Inl (FileNotFoundError
                     (''Save annotations path not found: '' @ p @ '' was not found'')))
         | None \<Rightarrow>
             (let save_annotations_file_path = curdir;
                  save_image_path = join (join save_annotations_file_path ''predictions'') ''images'';
                  save_txt_file_path =
                    join (join save_annotations_file_path ''predictions'') ''annotations'';
                  json_file_path = join save_annotations_file_path ''instances.json''
              in case labels C of
                   NotAList s \<Rightarrow>
                     ([Print (''Incorrect labels format: '' @ s)],
                      Inl (ValueError (''Incorrect labels format: '' @ s @ '' should be a list'')))
                 | LabelList ls \<Rightarrow>
                     (let tr1 = (if save_image C \<and> \<not> path_exists os save_image_path
                                 then [MakeDirs save_image_path] else []);
                          tr2 = tr1 @ (if save_annotation C \<and> \<not> path_exists os save_txt_file_path
                                       then [MakeDirs save_txt_file_path] else []);
                          tr3 = tr2 @ [LogDebug (''Loading model from '' @ model_path C),
                                       LoadModel (model_path C),
                                       LogDebug (''Loading images from '' @ images_path C)]
                      in case listdir os (images_path C) of
                           None \<Rightarrow> (tr3, Inl OSError)
                         | Some names \<Rightarrow>
                             (let images_paths = load_images os (images_path C) names;
                                  tr4 = tr3 @ [LogDebug (''Found '' @ str_nat (length images_paths)
                                                           @ '' images''),
                                               LogDebug ''Predicting on images'',
                                               Predict images_paths];
                                  results = predict os (model_path C) images_paths;
                                  data = dict_update [] coco_header;
                                  data = dict_update data [(''categories'', JList (categories_of ls))]
                              in case results_loop (save_image C) (save_annotation C)
                                        save_image_path save_txt_file_path 1 results tr4 [] [] of
                                   (tr5, Inl e) \<Rightarrow> (tr5, Inl e)
                                 | (tr5, Inr (images, annotations)) \<Rightarrow>
                                     (let data = dict_update data [(''images'', JList images)];
                                          data = dict_update data
                                                   [(''annotations'', JList annotations)]
                                      in (tr5 @ [LogDebug ''Saving results'',
                                                 WriteJson json_file_path (JDict data),
                                                 LogDebug ''Done''],
                                          Inr ())))))))"

section \<open>Observations on a run\<close>

definition paths_ok :: "env \<Rightarrow> constants \<Rightarrow> bool" where
  "paths_ok os C \<longleftrightarrow>
     path_exists os (model_path C) \<and> path_exists os (images_path C) \<and>
     (case save_annotations_path C of None \<Rightarrow> True | Some p \<Rightarrow> path_exists os p)"

definition setup_events :: "env \<Rightarrow> constants \<Rightarrow> event list" where
  "setup_events os C =
     (if save_image C \<and> \<not> path_exists os ''./predictions/images''
      then [MakeDirs ''./predictions/images''] else []) @
     (if save_annotation C \<and> \<not> path_exists os ''./predictions/annotations''
      then [MakeDirs ''./predictions/annotations''] else []) @
     [LogDebug (''Loading model from '' @ model_path C),
      LoadModel (model_path C),
      LogDebug (''Loading images from '' @ images_path C)]"

definition run_results :: "env \<Rightarrow> constants \<Rightarrow> result list" where
  "run_results os C =
     (case listdir os (images_path C) of
        None \<Rightarrow> []
      | Some names \<Rightarrow> predict os (model_path C) (load_images os (images_path C) names))"

definition run_saves :: "constants \<Rightarrow> result list \<Rightarrow> event list" where
  "run_saves C rs =
     concat (map (save_result (save_image C) (save_annotation C)
                    ''./predictions/images'' ''./predictions/annotations'') rs)"

definition predict_events :: "env \<Rightarrow> constants \<Rightarrow> event list" where
  "predict_events os C =
     (case listdir os (images_path C) of
        None \<Rightarrow> []
      | Some names \<Rightarrow>
          [LogDebug (''Found '' @ str_nat (length (load_images os (images_path C) names))
                       @ '' images''),
           LogDebug ''Predicting on images'',
           Predict (load_images os (images_path C) names)])"

definition document :: "string list \<Rightarrow> json list \<Rightarrow> json list \<Rightarrow> json" where
  "document ls imgs anns =
     JDict (coco_header @ [(''categories'', JList (categories_of ls)),
                           (''images'', JList imgs), (''annotations'', JList anns)])"

definition box_records :: "int \<Rightarrow> result \<Rightarrow> json list \<Rightarrow> bool" where
  "box_records i r g \<longleftrightarrow>
     (\<exists>b. obb r = Some b \<and>
        list_all2 (\<lambda>(k, x) a. calculate_bbox k i (cls b) x = Inr a) (py_enumerate 1 (xywhr b)) g)"

definition well_formed :: "result \<Rightarrow> bool" where
  "well_formed r \<longleftrightarrow>
     (case obb r of
        None \<Rightarrow> False
      | Some b \<Rightarrow> length (xywhr b) \<le> length (cls b) \<and> list_all (\<lambda>x. length x = 5) (xywhr b))"

definition boxes :: "result \<Rightarrow> real list list" where
  "boxes r = (case obb r of None \<Rightarrow> [] | Some b \<Rightarrow> xywhr b)"

definition ann_ids :: "json \<Rightarrow> json option \<times> json option" where
  "ann_ids a = (jget a ''image_id'', jget a ''id'')"

text \<open>
  The behaviour of the detection library's \<^verbatim>\<open>save_txt\<close>: it collects one line per detection
  (per oriented box, when the result has oriented boxes) and writes the file only when there
  is at least one line. A result without detections leaves no label file.
\<close>

definition writes_label_file :: "result \<Rightarrow> bool" where
  "writes_label_file r =
     (case obb r of
        Some b \<Rightarrow> xywhr b \<noteq> []
      | None \<Rightarrow> other_detections r)"

text \<open>What a run has written: the JSON files with their documents, the annotated images,
  the label files (the \<^verbatim>\<open>save_txt\<close> calls that write one) and the directories.\<close>

definition written :: "event list \<Rightarrow> (string \<times> json) list" where
  "written tr = concat (map (\<lambda>e. case e of WriteJson p d \<Rightarrow> [(p, d)] | _ \<Rightarrow> []) tr)"

definition saved_images :: "event list \<Rightarrow> string list" where
  "saved_images tr = concat (map (\<lambda>e. case e of SaveImage p \<Rightarrow> [p] | _ \<Rightarrow> []) tr)"

definition saved_txts :: "event list \<Rightarrow> string list" where
  "saved_txts tr =
     concat (map (\<lambda>e. case e of SaveTxt p r \<Rightarrow> if writes_label_file r then [p] else []
                              | _ \<Rightarrow> []) tr)"

definition created_dirs :: "event list \<Rightarrow> string list" where
  "created_dirs tr = concat (map (\<lambda>e. case e of MakeDirs p \<Rightarrow> [p] | _ \<Rightarrow> []) tr)"


text \<open>The list under a key of the one document a run has written.\<close>

definition doc_list :: "string \<Rightarrow> event list \<Rightarrow> json list" where
  "doc_list key tr =
     (case written tr of
        [(p, d)] \<Rightarrow> (case jget d key of Some (JList xs) \<Rightarrow> xs | _ \<Rightarrow> [])
      | _ \<Rightarrow> [])"

definition json_id :: "json \<Rightarrow> json option" where
  "json_id a = jget a ''id''"

text \<open>The pairs (image id, annotation id) of images \<open>s, s + 1, \<dots>\<close> with \<open>ns\<close> boxes each,
  the box ids starting at 1 in every image.\<close>

definition id_pairs :: "int \<Rightarrow> nat list \<Rightarrow> (json option \<times> json option) list" where
  "id_pairs s ns =
     concat (map (\<lambda>(i, n). map (\<lambda>k. (Some (JInt i), Some (JInt k))) [1..int n])
               (py_enumerate s ns))"

subsection \<open>A concrete run\<close>

text \<open>
  A directory \<^verbatim>\<open>imgs\<close> with two image files, a text file and a subdirectory named like an
  image; a detector that finds two boxes in every image; a configuration with an existing
  output directory and both save flags set.
\<close>

definition example_result :: "string \<Rightarrow> result" where
  "example_result p =
     \<lparr>path = p, orig_shape = (480, 640),
      obb = Some \<lparr>cls = [1, 0], xywhr = [[10, 20, 4, 6, 0], [1, 2, 3, 4, 0]]\<rparr>,
      other_detections = False\<rparr>"

definition example_env :: env where
  "example_env =
     \<lparr>path_exists = (\<lambda>p. p = ''best.pt'' \<or> p = ''imgs'' \<or> p = ''/out''),
      path_isfile = (\<lambda>p. p \<noteq> ''imgs/d.png''),
      listdir = (\<lambda>p. if p = ''imgs'' then Some [''b.JPG'', ''a.png'', ''c.txt'', ''d.png'']
                       else None),
      predict = (\<lambda>m ps. map example_result ps)\<rparr>"

definition example_constants :: constants where
  "example_constants =
     \<lparr>model_path = ''best.pt'', images_path = ''imgs'', save_annotations_path = Some ''/out'',
      labels = LabelList [''car'', ''bus''], save_image = True, save_annotation = True\<rparr>"

definition example_annotation :: "int \<Rightarrow> int \<Rightarrow> int \<Rightarrow> real \<Rightarrow> real list \<Rightarrow> json" where
  "example_annotation k i c a b =
     JDict [(''id'', JInt k), (''image_id'', JInt i), (''category_id'', JInt c),
            (''segmentation'', JList []), (''area'', JFloat a), (''bbox'', JList (map JFloat b)),
            (''iscrowd'', JInt 0),
            (''attributes'', JDict [(''occluded'', JBool False), (''rotation'', JFloat 0)])]"

definition example_image :: "int \<Rightarrow> string \<Rightarrow> json" where
  "example_image i name =
     JDict [(''id'', JInt i), (''width'', JInt 640), (''height'', JInt 480),
            (''file_name'', JStr name), (''license'', JInt 0), (''flickr_url'', JStr []),
            (''coco_url'', JStr []), (''date_captured'', JInt 0)]"

definition example_document :: json where
  "example_document =
     JDict
       [(''licenses'', JList [JDict [(''name'', JStr []), (''id'', JInt 0), (''url'', JStr [])]]),
        (''info'', JDict [(''contributor'', JStr []), (''date_created'', JStr []),
                          (''description'', JStr []), (''url'', JStr []),
                          (''version'', JStr []), (''year'', JStr [])]),
        (''categories'',
           JList [JDict [(''id'', JInt 1), (''name'', JStr ''car''), (''supercategory'', JStr [])],
                  JDict [(''id'', JInt 2), (''name'', JStr ''bus''), (''supercategory'', JStr [])]]),
        (''images'', JList [example_image 1 ''a.png'', example_image 2 ''b.JPG'']),
        (''annotations'',
           JList [example_annotation 1 1 2 24 [8, 17, 4, 6],
                  example_annotation 2 1 1 12 [- (1 / 2), 0, 3, 4],
                  example_annotation 1 2 2 24 [8, 17, 4, 6],
                  example_annotation 2 2 1 12 [- (1 / 2), 0, 3, 4]])]"

definition example_trace :: "event list" where
  "example_trace =
     [MakeDirs ''./predictions/images'',
      MakeDirs ''./predictions/annotations'',
      LogDebug ''Loading model from best.pt'',
      LoadModel ''best.pt'',
      LogDebug ''Loading images from imgs'',
      LogDebug ''Found 2 images'',
      LogDebug ''Predicting on images'',
      Predict [''imgs/a.png'', ''imgs/b.JPG''],
      SaveImage ''./predictions/images/a.png'',
      SaveTxt ''./predictions/annotations/a.txt'' (example_result ''imgs/a.png''),
      SaveImage ''./predictions/images/b.JPG'',
      SaveTxt ''./predictions/annotations/b.txt'' (example_result ''imgs/b.JPG''),
      LogDebug ''Saving results'',
      WriteJson ''./instances.json'' example_document,
      LogDebug ''Done'']"







section \<open>Auxiliary facts\<close>

subsection \<open>Enumeration and paths\<close>

lemma length_py_enumerate: "length (py_enumerate n xs) = length xs"
  by (induction xs arbitrary: n) simp_all

lemma map_snd_py_enumerate: "map snd (py_enumerate n xs) = xs"
  by (induction xs arbitrary: n) simp_all

lemma map_fst_py_enumerate: "map fst (py_enumerate n xs) = [n..n + int (length xs) - 1]"
proof (induction xs arbitrary: n)
  case Nil
  then show ?case by simp
next
  case (Cons x xs)
  have "[n..n + int (length (x # xs)) - 1] = n # [n + 1..n + 1 + int (length xs) - 1]"
    by (subst upto_rec1) (simp_all add: algebra_simps)
  with Cons show ?case by simp
qed

lemma nth_py_enumerate: "k < length xs \<Longrightarrow> py_enumerate n xs ! k = (n + int k, xs ! k)"
proof (induction xs arbitrary: n k)
  case Nil
  then show ?case by simp
next
  case (Cons x xs)
  then show ?case by (cases k) (simp_all add: algebra_simps)
qed

lemma rev_takeWhile_suffix:
  "drop (length p - length (takeWhile P (rev p))) p = rev (takeWhile P (rev p))"
proof -
  have "rev p = takeWhile P (rev p) @ dropWhile P (rev p)" by simp
  then have "p = rev (dropWhile P (rev p)) @ rev (takeWhile P (rev p))"
    by (metis rev_append rev_rev_ident)
  moreover have "length (rev (dropWhile P (rev p))) = length p - length (takeWhile P (rev p))"
    by (metis \<open>rev p = takeWhile P (rev p) @ dropWhile P (rev p)\<close> add_diff_cancel_left' length_append length_rev)
  ultimately show ?thesis
    by (metis append_eq_conv_conj)
qed

lemma basename_eq: "basename p = rev (takeWhile (\<lambda>x. x \<noteq> CHR ''/'') (rev p))"
proof (cases "CHR ''/'' \<in> set p")
  case True
  have le: "length (takeWhile (\<lambda>x. x \<noteq> CHR ''/'') (rev p)) \<le> length p"
    by (metis length_rev length_takeWhile_le)
  have "nat (rfind p CHR ''/'' + 1) = length p - length (takeWhile (\<lambda>x. x \<noteq> CHR ''/'') (rev p))"
    using True le by (simp add: rfind_def)
  then show ?thesis
    by (simp add: basename_def rev_takeWhile_suffix)
next
  case False
  have "takeWhile (\<lambda>x. x \<noteq> CHR ''/'') (rev p) = rev p"
    by (rule takeWhile_eq_all_conv [THEN iffD2]) (use False in auto)
  then have "rev (takeWhile (\<lambda>x. x \<noteq> CHR ''/'') (rev p)) = p"
    by (simp only: rev_rev_ident)
  moreover have "basename p = p"
    using False by (simp add: basename_def rfind_def)
  ultimately show ?thesis by (simp only:)
qed

lemma basename_no_sep: "CHR ''/'' \<notin> set (basename p)"
proof
  assume "CHR ''/'' \<in> set (basename p)"
  then have "CHR ''/'' \<in> set (takeWhile (\<lambda>x. x \<noteq> CHR ''/'') (rev p))"
    by (simp add: basename_eq)
  then show False
    by (auto dest: set_takeWhileD)
qed

lemma set_fst_splitext: "set (fst (splitext q)) \<subseteq> set q"
  by (auto simp: splitext_def Let_def dest: in_set_takeD)

lemma join_relative:
  assumes "a \<noteq> []" "last a \<noteq> CHR ''/''" "b = [] \<or> hd b \<noteq> CHR ''/''"
  shows "join a b = a @ ''/'' @ b"
proof -
  have "\<not> startswith b ''/''"
    using assms(3) by (cases b) (auto simp: startswith_def)
  moreover have "\<not> endswith a ''/''"
  proof
    assume "endswith a ''/''"
    then have "drop (length a - 1) a = [CHR ''/'']" by (simp add: endswith_def)
    moreover have "drop (length a - 1) a = [last a]"
      using assms(1) by (metis append_butlast_last_id append_eq_conv_conj length_butlast)
    ultimately show False using assms(2) by simp
  qed
  ultimately show ?thesis using assms(1) by (simp add: join_def)
qed

lemma join_basename:
  assumes "a \<noteq> []" "last a \<noteq> CHR ''/''"
  shows "join a (basename p) = a @ ''/'' @ basename p"
proof -
  have "basename p = [] \<or> hd (basename p) \<noteq> CHR ''/''"
    using basename_no_sep [of p] by (cases "basename p") auto
  with assms show ?thesis by (rule join_relative)
qed

lemma join_stem_txt:
  assumes "a \<noteq> []" "last a \<noteq> CHR ''/''"
  shows "join a (fst (splitext (basename p)) @ ''.txt'') = a @ ''/'' @ fst (splitext (basename p)) @ ''.txt''"
proof -
  let ?s = "fst (splitext (basename p))"
  have "CHR ''/'' \<notin> set ?s"
    using basename_no_sep [of p] set_fst_splitext [of "basename p"] by blast
  then have "hd (?s @ ''.txt'') \<noteq> CHR ''/''"
    by (cases ?s) auto
  then have "?s @ ''.txt'' = [] \<or> hd (?s @ ''.txt'') \<noteq> CHR ''/''" by simp
  with assms show ?thesis by (rule join_relative)
qed

subsection \<open>The two loops\<close>

lemma calculate_bbox_Inr:
  assumes "calculate_bbox k i c b = Inr a"
  shows "jget a ''id'' = Some (JInt k)"
    and "jget a ''image_id'' = Some (JInt i)"
    and "\<exists>label. py_index c (k - 1) = Inr label \<and>
           jget a ''category_id'' = Some (JInt (py_int label + 1))"
    and "length b = 5"
  using assms
  by (auto simp: calculate_bbox_def Let_def split: sum.splits list.splits)

lemma calculate_bbox_Inl:
  assumes "calculate_bbox k i c b = Inl e"
  shows "(e = IndexError \<and> py_index c (k - 1) = Inl IndexError) \<or>
         (e = ValueError ''values to unpack'' \<and> length b \<noteq> 5)"
  using assms
  by (auto simp: calculate_bbox_def py_index_def Let_def split: sum.splits list.splits if_splits)

lemma calculate_bbox_total:
  assumes "py_index c (k - 1) = Inr label" "length b = 5"
  shows "\<exists>a. calculate_bbox k i c b = Inr a"
proof -
  from assms(2) obtain x y w h r where "b = [x, y, w, h, r]"
    by (auto simp: length_Suc_conv eval_nat_numeral)
  with assms(1) show ?thesis by (simp add: calculate_bbox_def)
qed

lemma bbox_loop_Inr:
  "bbox_loop bid i c bs anns = Inr anns' \<Longrightarrow>
   \<exists>new. anns' = anns @ new \<and>
     list_all2 (\<lambda>(k, b) a. calculate_bbox k i c b = Inr a) (py_enumerate bid bs) new"
proof (induction bs arbitrary: bid anns)
  case Nil
  then show ?case by simp
next
  case (Cons b bs)
  from Cons.prems obtain a where a: "calculate_bbox bid i c b = Inr a"
    and rest: "bbox_loop (bid + 1) i c bs (anns @ [a]) = Inr anns'"
    by (auto split: sum.splits)
  from Cons.IH [OF rest] obtain new where
    "anns' = (anns @ [a]) @ new"
    "list_all2 (\<lambda>(k, b) a. calculate_bbox k i c b = Inr a) (py_enumerate (bid + 1) bs) new"
    by blast
  with a have "anns' = anns @ (a # new) \<and>
     list_all2 (\<lambda>(k, b) a. calculate_bbox k i c b = Inr a) (py_enumerate bid (b # bs)) (a # new)"
    by simp
  then show ?case by blast
qed

lemma bbox_loop_Inl:
  "bbox_loop bid i c bs anns = Inl e \<Longrightarrow>
   \<exists>k < length bs. calculate_bbox (bid + int k) i c (bs ! k) = Inl e"
proof (induction bs arbitrary: bid anns)
  case Nil
  then show ?case by simp
next
  case (Cons b bs)
  show ?case
  proof (cases "calculate_bbox bid i c b")
    case (Inl e')
    with Cons.prems have "calculate_bbox (bid + int 0) i c ((b # bs) ! 0) = Inl e" by simp
    then show ?thesis by blast
  next
    case (Inr a)
    with Cons.prems have "bbox_loop (bid + 1) i c bs (anns @ [a]) = Inl e" by simp
    from Cons.IH [OF this] obtain k where "k < length bs"
      "calculate_bbox (bid + 1 + int k) i c (bs ! k) = Inl e" by blast
    then have "Suc k < length (b # bs) \<and> calculate_bbox (bid + int (Suc k)) i c ((b # bs) ! Suc k) = Inl e"
      by (simp add: algebra_simps)
    then show ?thesis by blast
  qed
qed

lemma bbox_loop_total:
  assumes "\<And>k. k < length bs \<Longrightarrow> \<exists>a. calculate_bbox (bid + int k) i c (bs ! k) = Inr a"
  shows "\<exists>anns'. bbox_loop bid i c bs anns = Inr anns'"
proof (cases "bbox_loop bid i c bs anns")
  case (Inl e)
  from bbox_loop_Inl [OF this] assms show ?thesis by fastforce
next
  case (Inr r)
  then show ?thesis by blast
qed

lemma list_all2_map_eq:
  assumes "list_all2 P xs ys" "\<And>x y. P x y \<Longrightarrow> f y = g x"
  shows "map f ys = map g xs"
  using assms by (induction rule: list_all2_induct) auto

lemma results_loop_trace:
  "results_loop si st ip tp i rs tr imgs anns = (tr', X) \<Longrightarrow>
   \<exists>n \<le> length rs. tr' = tr @ concat (map (save_result si st ip tp) (take n rs))"
proof (induction rs arbitrary: i tr imgs anns)
  case Nil
  then show ?case by simp
next
  case (Cons r rs)
  let ?tr = "tr @ save_result si st ip tp r"
  consider (stop) "tr' = ?tr"
    | (go) i' imgs' anns' where "results_loop si st ip tp i' rs ?tr imgs' anns' = (tr', X)"
    using Cons.prems by (auto simp: Let_def split: option.splits sum.splits)
  then show ?case
  proof cases
    case stop
    then have "Suc 0 \<le> length (r # rs) \<and>
      tr' = tr @ concat (map (save_result si st ip tp) (take (Suc 0) (r # rs)))" by simp
    then show ?thesis by blast
  next
    case go
    from Cons.IH [OF this] obtain n where "n \<le> length rs"
      "tr' = ?tr @ concat (map (save_result si st ip tp) (take n rs))" by blast
    then have "Suc n \<le> length (r # rs) \<and>
      tr' = tr @ concat (map (save_result si st ip tp) (take (Suc n) (r # rs)))" by simp
    then show ?thesis by blast
  qed
qed

lemma results_loop_Inr:
  "results_loop si st ip tp i rs tr imgs anns = (tr', Inr (imgs', anns')) \<Longrightarrow>
   tr' = tr @ concat (map (save_result si st ip tp) rs) \<and>
   imgs' = imgs @ map (\<lambda>(i, r). new_image i r) (py_enumerate i rs) \<and>
   (\<exists>groups. anns' = anns @ concat groups \<and>
      list_all2 (\<lambda>(i, r) g. \<exists>b. obb r = Some b \<and>
          list_all2 (\<lambda>(k, x) a. calculate_bbox k i (cls b) x = Inr a) (py_enumerate 1 (xywhr b)) g)
        (py_enumerate i rs) groups)"
proof (induction rs arbitrary: i tr imgs anns)
  case Nil
  then show ?case by simp
next
  case (Cons r rs)
  let ?tr = "tr @ save_result si st ip tp r"
  from Cons.prems obtain b anns1 where b: "obb r = Some b"
    and inner: "bbox_loop 1 i (cls b) (xywhr b) anns = Inr anns1"
    and rest: "results_loop si st ip tp (i + 1) rs ?tr (imgs @ [new_image i r]) anns1 = (tr', Inr (imgs', anns'))"
    by (auto simp: Let_def split: option.splits sum.splits)
  from bbox_loop_Inr [OF inner] obtain g where g: "anns1 = anns @ g"
    "list_all2 (\<lambda>(k, x) a. calculate_bbox k i (cls b) x = Inr a) (py_enumerate 1 (xywhr b)) g"
    by blast
  from Cons.IH [OF rest] obtain groups where
    tr': "tr' = ?tr @ concat (map (save_result si st ip tp) rs)"
    and imgs': "imgs' = (imgs @ [new_image i r]) @ map (\<lambda>(i, r). new_image i r) (py_enumerate (i + 1) rs)"
    and anns': "anns' = anns1 @ concat groups"
    and groups: "list_all2 (\<lambda>(i, r) g. \<exists>b. obb r = Some b \<and>
          list_all2 (\<lambda>(k, x) a. calculate_bbox k i (cls b) x = Inr a) (py_enumerate 1 (xywhr b)) g)
        (py_enumerate (i + 1) rs) groups"
    by blast
  have a: "anns' = anns @ concat (g # groups)"
    using anns' g(1) by simp
  have l: "list_all2 (\<lambda>(i, r) g. \<exists>b. obb r = Some b \<and>
          list_all2 (\<lambda>(k, x) a. calculate_bbox k i (cls b) x = Inr a) (py_enumerate 1 (xywhr b)) g)
        (py_enumerate i (r # rs)) (g # groups)"
    using groups g(2) b by simp
  have t: "tr' = tr @ concat (map (save_result si st ip tp) (r # rs))"
    using tr' by simp
  have m: "imgs' = imgs @ map (\<lambda>(i, r). new_image i r) (py_enumerate i (r # rs))"
    using imgs' by simp
  from a l t m show ?case by blast
qed

lemma results_loop_total:
  assumes "\<And>r i anns. r \<in> set rs \<Longrightarrow>
             \<exists>b anns'. obb r = Some b \<and> bbox_loop 1 i (cls b) (xywhr b) anns = Inr anns'"
  shows "\<exists>tr' imgs' anns'.
           results_loop si st ip tp i rs tr imgs anns = (tr', Inr (imgs', anns'))"
  using assms
proof (induction rs arbitrary: i tr imgs anns)
  case Nil
  then show ?case by simp
next
  case (Cons r rs)
  from Cons.prems [of r i anns] obtain b anns1 where
    b: "obb r = Some b" "bbox_loop 1 i (cls b) (xywhr b) anns = Inr anns1" by auto
  have "\<exists>tr' imgs' anns'.
          results_loop si st ip tp (i + 1) rs (tr @ save_result si st ip tp r)
            (imgs @ [new_image i r]) anns1 = (tr', Inr (imgs', anns'))"
    by (rule Cons.IH) (use Cons.prems in auto)
  with b show ?case by (simp add: Let_def)
qed

lemma py_index_in_range:
  assumes "k < length c"
  shows "py_index c (1 + int k - 1) = Inr (c ! k)"
  using assms by (simp add: py_index_def)

lemma well_formed_bbox_loop:
  assumes "well_formed r"
  shows "\<exists>b anns'. obb r = Some b \<and> bbox_loop 1 i (cls b) (xywhr b) anns = Inr anns'"
proof -
  from assms obtain b where b: "obb r = Some b" "length (xywhr b) \<le> length (cls b)"
    "list_all (\<lambda>x. length x = 5) (xywhr b)"
    by (auto simp: well_formed_def split: option.splits)
  have "\<exists>a. calculate_bbox (1 + int k) i (cls b) (xywhr b ! k) = Inr a" if "k < length (xywhr b)" for k
  proof (rule calculate_bbox_total)
    show "py_index (cls b) (1 + int k - 1) = Inr (cls b ! k)"
      using that b(2) by (intro py_index_in_range) simp
    show "length (xywhr b ! k) = 5"
      using that b(3) by (simp add: list_all_length)
  qed
  from bbox_loop_total [of "xywhr b" 1 i "cls b" anns, OF this] b(1) show ?thesis by auto
qed

lemma bbox_loop_records:
  assumes "bbox_loop 1 i c bs anns = Inr anns'"
  shows "\<exists>new. anns' = anns @ new \<and> length new = length bs \<and>
           (\<forall>k < length bs. calculate_bbox (1 + int k) i c (bs ! k) = Inr (new ! k))"
proof -
  from bbox_loop_Inr [OF assms] obtain new where new: "anns' = anns @ new"
    and l: "list_all2 (\<lambda>(k, b) a. calculate_bbox k i c b = Inr a) (py_enumerate 1 bs) new"
    by blast
  from l have len: "length new = length bs"
    by (simp add: list_all2_lengthD [symmetric] length_py_enumerate)
  have "calculate_bbox (1 + int k) i c (bs ! k) = Inr (new ! k)" if "k < length bs" for k
  proof -
    from l len that have "(\<lambda>(k, b) a. calculate_bbox k i c b = Inr a) (py_enumerate 1 bs ! k) (new ! k)"
      by (simp add: list_all2_conv_all_nth)
    with that show ?thesis by (simp add: nth_py_enumerate)
  qed
  with new len show ?thesis by blast
qed

lemma results_loop_Inl:
  "results_loop si st ip tp i rs tr imgs anns = (tr', Inl e) \<Longrightarrow>
   \<exists>r \<in> set rs. (obb r = None \<and> e = AttributeError) \<or>
      (\<exists>b j acc. obb r = Some b \<and> bbox_loop 1 j (cls b) (xywhr b) acc = Inl e)"
proof (induction rs arbitrary: i tr imgs anns)
  case Nil
  then show ?case by simp
next
  case (Cons r rs)
  show ?case
  proof (cases "obb r")
    case None
    with Cons.prems have "e = AttributeError" by (simp add: Let_def)
    with None show ?thesis by auto
  next
    case (Some b)
    show ?thesis
    proof (cases "bbox_loop 1 i (cls b) (xywhr b) anns")
      case (Inl e')
      with Cons.prems Some have "e' = e" by (simp add: Let_def)
      with Inl Some show ?thesis by auto
    next
      case (Inr anns1)
      with Cons.prems Some have
        "results_loop si st ip tp (i + 1) rs (tr @ save_result si st ip tp r)
           (imgs @ [new_image i r]) anns1 = (tr', Inl e)"
        by (simp add: Let_def)
      from Cons.IH [OF this] show ?thesis by auto
    qed
  qed
qed

lemma bbox_loop_no_IndexError:
  assumes "length bs \<le> length c"
  shows "bbox_loop 1 i c bs anns \<noteq> Inl IndexError"
proof
  assume "bbox_loop 1 i c bs anns = Inl IndexError"
  from bbox_loop_Inl [OF this] obtain k where k: "k < length bs"
    "calculate_bbox (1 + int k) i c (bs ! k) = Inl IndexError" by blast
  from k(1) assms have "py_index c (1 + int k - 1) = Inr (c ! k)"
    by (intro py_index_in_range) simp
  with calculate_bbox_Inl [OF k(2)] show False by simp
qed

subsection \<open>The branches of the script\<close>

lemma paths_eval:
  "join (join curdir ''predictions'') ''images'' = ''./predictions/images''"
  "join (join curdir ''predictions'') ''annotations'' = ''./predictions/annotations''"
  "join curdir ''instances.json'' = ''./instances.json''"
  by (simp_all add: join_def curdir_def startswith_def endswith_def)

lemma header_eval:
  "dict_update (dict_update (dict_update (dict_update [] coco_header)
      [(''categories'', c)]) [(''images'', i)]) [(''annotations'', a)] =
   coco_header @ [(''categories'', c), (''images'', i), (''annotations'', a)]"
  by (simp add: dict_update_def coco_header_def)

lemma main_no_model:
  assumes "\<not> path_exists os (model_path C)"
  shows "main os C =
     ([Print (''Model path not found: '' @ model_path C)],
      Inl (FileNotFoundError (''Model path not found: '' @ model_path C @ '' was not found'')))"
  using assms by (simp add: main_def)

lemma main_no_images:
  assumes "path_exists os (model_path C)" "\<not> path_exists os (images_path C)"
  shows "main os C =
     ([Print (''Images path not found: '' @ images_path C)],
      Inl (FileNotFoundError (''Images path not found: '' @ images_path C @ '' was not found'')))"
  using assms by (simp add: main_def)

lemma main_no_save_path:
  assumes "path_exists os (model_path C)" "path_exists os (images_path C)"
    "save_annotations_path C = Some p" "\<not> path_exists os p"
  shows "main os C =
     ([Print (''Save annotations path not found: '' @ p)],
      Inl (FileNotFoundError (''Save annotations path not found: '' @ p @ '' was not found'')))"
  using assms by (simp add: main_def)

lemma paths_ok_guard:
  assumes "paths_ok os C"
  shows "(case save_annotations_path C of None \<Rightarrow> None
          | Some p \<Rightarrow> if \<not> path_exists os p then Some p else None) = None"
  using assms by (auto simp: paths_ok_def split: option.splits)

lemma main_not_a_list:
  assumes "paths_ok os C" "labels C = NotAList s"
  shows "main os C =
     ([Print (''Incorrect labels format: '' @ s)],
      Inl (ValueError (''Incorrect labels format: '' @ s @ '' should be a list'')))"
  using assms paths_ok_guard [OF assms(1)] by (simp add: main_def paths_ok_def Let_def)

lemma main_listdir_fails:
  assumes "paths_ok os C" "labels C = LabelList ls" "listdir os (images_path C) = None"
  shows "main os C = (setup_events os C, Inl OSError)"
  using assms paths_ok_guard [OF assms(1)]
  by (simp add: main_def paths_ok_def Let_def paths_eval setup_events_def)

lemma main_loop:
  assumes "paths_ok os C" "labels C = LabelList ls" "listdir os (images_path C) = Some names"
  shows "main os C =
     (case results_loop (save_image C) (save_annotation C) ''./predictions/images''
             ''./predictions/annotations'' 1
             (predict os (model_path C) (load_images os (images_path C) names))
             (setup_events os C @
                [LogDebug (''Found '' @ str_nat (length (load_images os (images_path C) names))
                    @ '' images''),
                 LogDebug ''Predicting on images'',
                 Predict (load_images os (images_path C) names)]) [] [] of
        (tr5, Inl e) \<Rightarrow> (tr5, Inl e)
      | (tr5, Inr (images, annotations)) \<Rightarrow>
          (tr5 @ [LogDebug ''Saving results'',
                  WriteJson ''./instances.json''
                    (JDict (coco_header @ [(''categories'', JList (categories_of ls)),
                       (''images'', JList images), (''annotations'', JList annotations)])),
                  LogDebug ''Done''], Inr ()))"
  using assms paths_ok_guard [OF assms(1)]
  by (simp add: main_def paths_ok_def Let_def paths_eval header_eval setup_events_def)


lemma main_Inr:
  assumes "main os C = (tr, Inr ())"
  obtains ls groups where
    "paths_ok os C" "labels C = LabelList ls"
    "list_all2 (\<lambda>(i, r) g. box_records i r g) (py_enumerate 1 (run_results os C)) groups"
    "tr = setup_events os C @ predict_events os C @ run_saves C (run_results os C) @
          [LogDebug ''Saving results'',
           WriteJson ''./instances.json''
             (document ls (map (\<lambda>(i, r). new_image i r) (py_enumerate 1 (run_results os C)))
                (concat groups)),
           LogDebug ''Done'']"
proof -
  have e1: "path_exists os (model_path C)"
    using assms main_no_model [of os C] by auto
  have e2: "path_exists os (images_path C)"
    using assms e1 main_no_images [of os C] by auto
  have e3: "paths_ok os C"
  proof (cases "save_annotations_path C")
    case None
    with e1 e2 show ?thesis by (simp add: paths_ok_def)
  next
    case (Some p)
    with assms e1 e2 main_no_save_path [of os C p] have "path_exists os p" by auto
    with Some e1 e2 show ?thesis by (simp add: paths_ok_def)
  qed
  obtain ls where ls: "labels C = LabelList ls"
    using assms e3 main_not_a_list [of os C] by (cases "labels C") auto
  obtain names where names: "listdir os (images_path C) = Some names"
    using assms e3 ls main_listdir_fails [of os C ls] by (cases "listdir os (images_path C)") auto
  let ?rs = "predict os (model_path C) (load_images os (images_path C) names)"
  let ?tr4 = "setup_events os C @ predict_events os C"
  have tr4: "setup_events os C @
                [LogDebug (''Found '' @ str_nat (length (load_images os (images_path C) names))
                    @ '' images''),
                 LogDebug ''Predicting on images'',
                 Predict (load_images os (images_path C) names)] = ?tr4"
    using names by (simp add: predict_events_def)
  obtain tr5 imgs anns where
    loop: "results_loop (save_image C) (save_annotation C) ''./predictions/images''
             ''./predictions/annotations'' 1 ?rs ?tr4 [] [] = (tr5, Inr (imgs, anns))"
    and tr: "tr = tr5 @ [LogDebug ''Saving results'',
                  WriteJson ''./instances.json'' (document ls imgs anns),
                  LogDebug ''Done'']"
    using assms unfolding main_loop [OF e3 ls names] tr4 document_def
    by (auto split: prod.splits sum.splits)
  from results_loop_Inr [OF loop] obtain groups where
    "tr5 = ?tr4 @ run_saves C ?rs"
    "imgs = map (\<lambda>(i, r). new_image i r) (py_enumerate 1 ?rs)"
    "anns = concat groups"
    "list_all2 (\<lambda>(i, r) g. box_records i r g) (py_enumerate 1 ?rs) groups"
    unfolding run_saves_def box_records_def by auto
  moreover have "run_results os C = ?rs"
    using names by (simp add: run_results_def)
  ultimately show ?thesis
    using that [of ls groups] e3 ls tr by simp
qed


lemma main_invalid:
  assumes "main os C = (tr, X)" "\<not> paths_ok os C"
  shows "\<exists>s m. tr = [Print s] \<and> X = Inl (FileNotFoundError m)"
proof -
  consider "\<not> path_exists os (model_path C)"
    | "path_exists os (model_path C)" "\<not> path_exists os (images_path C)"
    | p where "path_exists os (model_path C)" "path_exists os (images_path C)"
        "save_annotations_path C = Some p" "\<not> path_exists os p"
    using assms(2) by (cases "save_annotations_path C") (auto simp: paths_ok_def)
  then have "\<exists>s m. main os C = ([Print s], Inl (FileNotFoundError m))"
  proof cases
    case 1
    from main_no_model [OF 1] show ?thesis by blast
  next
    case 2
    from main_no_images [OF 2] show ?thesis by blast
  next
    case 3
    from main_no_save_path [OF 3] show ?thesis by blast
  qed
  with assms(1) show ?thesis by auto
qed

lemma main_valid_Inl:
  assumes "main os C = (tr, Inl e)" "paths_ok os C"
  shows "(\<exists>s. tr = [Print s]) \<or>
         (tr = setup_events os C \<and> listdir os (images_path C) = None) \<or>
         (\<exists>n \<le> length (run_results os C).
             tr = setup_events os C @ predict_events os C @
                  run_saves C (take n (run_results os C)))"
proof (cases "labels C")
  case (NotAList s)
  from assms(1) main_not_a_list [OF assms(2) NotAList] have "tr = [Print (''Incorrect labels format: '' @ s)]"
    by simp
  then show ?thesis by blast
next
  case (LabelList ls)
  show ?thesis
  proof (cases "listdir os (images_path C)")
    case None
    from assms(1) main_listdir_fails [OF assms(2) LabelList None] have "tr = setup_events os C"
      by simp
    with None show ?thesis by blast
  next
    case (Some names)
    let ?rs = "predict os (model_path C) (load_images os (images_path C) names)"
    let ?tr4 = "setup_events os C @ predict_events os C"
    have tr4: "setup_events os C @
              [LogDebug (''Found '' @ str_nat (length (load_images os (images_path C) names))
                  @ '' images''),
               LogDebug ''Predicting on images'',
               Predict (load_images os (images_path C) names)] = ?tr4"
      using Some by (simp add: predict_events_def)
    have rs: "run_results os C = ?rs"
      using Some by (simp add: run_results_def)
    have "results_loop (save_image C) (save_annotation C) ''./predictions/images''
           ''./predictions/annotations'' 1 ?rs ?tr4 [] [] = (tr, Inl e)"
      using assms(1) unfolding main_loop [OF assms(2) LabelList Some] tr4
      by (auto split: prod.splits sum.splits)
    from results_loop_trace [OF this] obtain n where "n \<le> length ?rs"
      "tr = ?tr4 @ run_saves C (take n ?rs)"
      unfolding run_saves_def by auto
    then have "\<exists>n \<le> length (run_results os C).
             tr = setup_events os C @ predict_events os C @
                  run_saves C (take n (run_results os C))"
      unfolding rs by auto
    then show ?thesis by blast
  qed
qed

lemma main_completes:
  assumes "paths_ok os C" "labels C = LabelList ls" "listdir os (images_path C) = Some names"
    "list_all well_formed (run_results os C)"
  shows "\<exists>tr. main os C = (tr, Inr ())"
proof -
  let ?rs = "predict os (model_path C) (load_images os (images_path C) names)"
  have rs: "run_results os C = ?rs"
    using assms(3) by (simp add: run_results_def)
  have "\<exists>tr' imgs' anns'.
      results_loop (save_image C) (save_annotation C) ''./predictions/images''
        ''./predictions/annotations'' 1 ?rs
        (setup_events os C @
           [LogDebug (''Found '' @ str_nat (length (load_images os (images_path C) names))
               @ '' images''),
            LogDebug ''Predicting on images'',
            Predict (load_images os (images_path C) names)]) [] [] = (tr', Inr (imgs', anns'))"
  proof (rule results_loop_total)
    fix r i anns
    assume "r \<in> set ?rs"
    with assms(4) have "well_formed r" unfolding rs by (simp add: list_all_iff)
    then show "\<exists>b anns'. obb r = Some b \<and> bbox_loop 1 i (cls b) (xywhr b) anns = Inr anns'"
      by (rule well_formed_bbox_loop)
  qed
  then show ?thesis
    unfolding main_loop [OF assms(1-3)] by auto
qed

lemma main_IndexError:
  assumes "main os C = (tr, Inl IndexError)"
  shows "\<exists>r \<in> set (run_results os C). \<exists>b j acc.
           obb r = Some b \<and> bbox_loop 1 j (cls b) (xywhr b) acc = Inl IndexError"
proof -
  have ok: "paths_ok os C"
    using main_invalid [OF assms] by auto
  obtain ls where ls: "labels C = LabelList ls"
    using assms main_not_a_list [OF ok] by (cases "labels C") auto
  obtain names where names: "listdir os (images_path C) = Some names"
    using assms main_listdir_fails [OF ok ls] by (cases "listdir os (images_path C)") auto
  let ?rs = "predict os (model_path C) (load_images os (images_path C) names)"
  have rs: "run_results os C = ?rs"
    using names by (simp add: run_results_def)
  obtain tr0 where "results_loop (save_image C) (save_annotation C) ''./predictions/images''
           ''./predictions/annotations'' 1 ?rs tr0 [] [] = (tr, Inl IndexError)"
    using assms unfolding main_loop [OF ok ls names]
    by (auto split: prod.splits sum.splits)
  from results_loop_Inl [OF this] show ?thesis unfolding rs by auto
qed

subsection \<open>What a run writes\<close>

lemma written_append: "written (a @ b) = written a @ written b"
  by (simp add: written_def)



lemma created_dirs_append: "created_dirs (a @ b) = created_dirs a @ created_dirs b"
  by (simp add: created_dirs_def)

lemma setup_events_obs:
  "written (setup_events os C) = []"
  "saved_images (setup_events os C) = []"
  "saved_txts (setup_events os C) = []"
  by (simp_all add: setup_events_def written_def saved_images_def saved_txts_def)

lemma predict_events_obs:
  "written (predict_events os C) = []"
  "saved_images (predict_events os C) = []"
  "saved_txts (predict_events os C) = []"
  "created_dirs (predict_events os C) = []"
  by (cases "listdir os (images_path C)";
      simp add: predict_events_def written_def saved_images_def saved_txts_def created_dirs_def)+

lemma save_result_paths:
  "save_result si st ''./predictions/images'' ''./predictions/annotations'' r =
     (if si then [SaveImage (''./predictions/images/'' @ basename (path r))] else []) @
     (if st then [SaveTxt (''./predictions/annotations/'' @ fst (splitext (basename (path r)))
                             @ ''.txt'') r] else [])"
proof -
  have "join ''./predictions/images'' (basename (path r)) =
          ''./predictions/images/'' @ basename (path r)"
    by (subst join_basename) simp_all
  moreover have "join ''./predictions/annotations'' (fst (splitext (basename (path r))) @ ''.txt'') =
          ''./predictions/annotations/'' @ fst (splitext (basename (path r))) @ ''.txt''"
    by (subst join_stem_txt) simp_all
  ultimately show ?thesis by (simp add: save_result_def)
qed

lemma run_saves_obs:
  "written (run_saves C rs) = []"
  "created_dirs (run_saves C rs) = []"
  "saved_images (run_saves C rs) =
     (if save_image C then map (\<lambda>r. ''./predictions/images/'' @ basename (path r)) rs else [])"
  "saved_txts (run_saves C rs) =
     (if save_annotation C
      then map (\<lambda>r. ''./predictions/annotations/'' @ fst (splitext (basename (path r))) @ ''.txt'')
             (filter writes_label_file rs)
      else [])"
  by (induction rs)
    (simp_all add: run_saves_def save_result_paths written_def created_dirs_def
      saved_images_def saved_txts_def)

lemma document_fields:
  "jget (document ls imgs anns) ''categories'' = Some (JList (categories_of ls))"
  "jget (document ls imgs anns) ''images'' = Some (JList imgs)"
  "jget (document ls imgs anns) ''annotations'' = Some (JList anns)"
  by (simp_all add: document_def coco_header_def)

lemma main_document:
  assumes "main os C = (tr, Inr ())"
  obtains ls groups where
    "labels C = LabelList ls"
    "list_all2 (\<lambda>(i, r) g. box_records i r g) (py_enumerate 1 (run_results os C)) groups"
    "written tr =
       [(''./instances.json'',
         document ls (map (\<lambda>(i, r). new_image i r) (py_enumerate 1 (run_results os C)))
           (concat groups))]"
proof -
  from assms obtain ls groups where
    ls: "labels C = LabelList ls"
    and g: "list_all2 (\<lambda>(i, r) g. box_records i r g) (py_enumerate 1 (run_results os C)) groups"
    and tr: "tr = setup_events os C @ predict_events os C @ run_saves C (run_results os C) @
          [LogDebug ''Saving results'',
           WriteJson ''./instances.json''
             (document ls (map (\<lambda>(i, r). new_image i r) (py_enumerate 1 (run_results os C)))
                (concat groups)),
           LogDebug ''Done'']"
    by (rule main_Inr)
  have "written tr =
       [(''./instances.json'',
         document ls (map (\<lambda>(i, r). new_image i r) (py_enumerate 1 (run_results os C)))
           (concat groups))]"
    unfolding tr written_append setup_events_obs predict_events_obs run_saves_obs
    by (simp add: written_def)
  with ls g show ?thesis by (rule that)
qed

lemma box_records_ids:
  assumes "box_records i r g"
  shows "length g = length (boxes r)"
    and "k < length g \<Longrightarrow> ann_ids (g ! k) = (Some (JInt i), Some (JInt (int k + 1)))"
proof -
  from assms obtain b where b: "obb r = Some b"
    and l: "list_all2 (\<lambda>(k, x) a. calculate_bbox k i (cls b) x = Inr a) (py_enumerate 1 (xywhr b)) g"
    by (auto simp: box_records_def)
  from l have len: "length g = length (xywhr b)"
    by (simp add: list_all2_lengthD [symmetric] length_py_enumerate)
  with b show "length g = length (boxes r)" by (simp add: boxes_def)
  assume k: "k < length g"
  with l len have "(\<lambda>(k, x) a. calculate_bbox k i (cls b) x = Inr a) (py_enumerate 1 (xywhr b) ! k) (g ! k)"
    by (simp add: list_all2_conv_all_nth)
  with k len have "calculate_bbox (1 + int k) i (cls b) (xywhr b ! k) = Inr (g ! k)"
    by (simp add: nth_py_enumerate)
  from calculate_bbox_Inr(1,2) [OF this]
  show "ann_ids (g ! k) = (Some (JInt i), Some (JInt (int k + 1)))"
    by (simp add: ann_ids_def add.commute)
qed

lemma categories_of_nth:
  assumes "k < length ls"
  shows "categories_of ls ! k =
           JDict [(''id'', JInt (int k + 1)), (''name'', JStr (ls ! k)), (''supercategory'', JStr [])]"
  using assms by (simp add: categories_of_def length_py_enumerate nth_py_enumerate add.commute)

lemma length_categories_of: "length (categories_of ls) = length ls"
  by (simp add: categories_of_def length_py_enumerate)

lemma images_nth:
  assumes "k < length rs"
  shows "map (\<lambda>(i, r). new_image i r) (py_enumerate 1 rs) ! k = new_image (int k + 1) (rs ! k)"
  using assms by (simp add: length_py_enumerate nth_py_enumerate add.commute)

lemma new_image_fields:
  "jget (new_image i r) ''id'' = Some (JInt i)"
  "jget (new_image i r) ''width'' = Some (JInt (snd (orig_shape r)))"
  "jget (new_image i r) ''height'' = Some (JInt (fst (orig_shape r)))"
  "jget (new_image i r) ''file_name'' = Some (JStr (basename (path r)))"
  by (simp_all add: new_image_def)

subsection \<open>The events of a run, by the way it ends\<close>

lemma main_cases:
  assumes "main os C = (tr, X)"
  obtains (invalid) s where "tr = [Print s]" "X \<noteq> Inr ()"
  | (no_listing) "tr = setup_events os C" "X \<noteq> Inr ()"
  | (stopped) n where "n \<le> length (run_results os C)" "X \<noteq> Inr ()"
      "tr = setup_events os C @ predict_events os C @ run_saves C (take n (run_results os C))"
  | (completed) doc where "X = Inr ()"
      "tr = setup_events os C @ predict_events os C @ run_saves C (run_results os C) @
            [LogDebug ''Saving results'', WriteJson ''./instances.json'' doc, LogDebug ''Done'']"
proof (cases X)
  case (Inr u)
  then have X: "X = Inr ()" by simp
  with assms have "main os C = (tr, Inr ())" by simp
  then obtain ls groups where
    "tr = setup_events os C @ predict_events os C @ run_saves C (run_results os C) @
          [LogDebug ''Saving results'',
           WriteJson ''./instances.json''
             (document ls (map (\<lambda>(i, r). new_image i r) (py_enumerate 1 (run_results os C)))
                (concat groups)),
           LogDebug ''Done'']"
    by (rule main_Inr)
  with X show ?thesis by (rule completed)
next
  case (Inl e)
  then have X: "X \<noteq> Inr ()" by simp
  show ?thesis
  proof (cases "paths_ok os C")
    case False
    from main_invalid [OF assms False] obtain s where "tr = [Print s]" by blast
    then show ?thesis using X by (rule invalid)
  next
    case True
    from assms Inl have "main os C = (tr, Inl e)" by simp
    from main_valid_Inl [OF this True]
    consider s where "tr = [Print s]"
      | "tr = setup_events os C"
      | n where "n \<le> length (run_results os C)"
          "tr = setup_events os C @ predict_events os C @ run_saves C (take n (run_results os C))"
      by blast
    then show ?thesis
    proof cases
      case 1
      then show ?thesis using X by (rule invalid)
    next
      case 2
      then show ?thesis using X by (rule no_listing)
    next
      case 3
      from 3(1) X 3(2) show ?thesis by (rule stopped)
    qed
  qed
qed

lemma setup_events_no_predict: "Predict ps \<notin> set (setup_events os C)"
  by (simp add: setup_events_def)

lemma run_saves_no_predict: "Predict ps \<notin> set (run_saves C rs)"
  by (induction rs) (simp_all add: run_saves_def save_result_def)

lemma predict_events_predict:
  assumes "Predict ps \<in> set (predict_events os C)"
  shows "\<exists>names. listdir os (images_path C) = Some names \<and>
           ps = load_images os (images_path C) names"
  using assms by (cases "listdir os (images_path C)") (simp_all add: predict_events_def)

lemma main_predict:
  assumes "main os C = (tr, X)" "Predict ps \<in> set tr"
  shows "\<exists>names. listdir os (images_path C) = Some names \<and>
           ps = load_images os (images_path C) names"
  using assms(1)
proof (cases rule: main_cases)
  case (invalid s)
  with assms(2) show ?thesis by simp
next
  case no_listing
  with assms(2) setup_events_no_predict show ?thesis by simp
next
  case (stopped n)
  with assms(2) have "Predict ps \<in> set (predict_events os C)"
    by (simp add: setup_events_no_predict run_saves_no_predict)
  then show ?thesis by (rule predict_events_predict)
next
  case (completed doc)
  with assms(2) have "Predict ps \<in> set (predict_events os C)"
    by (simp add: setup_events_no_predict run_saves_no_predict)
  then show ?thesis by (rule predict_events_predict)
qed

lemma is_image_name_iff:
  "is_image_name n \<longleftrightarrow>
     endswith (lower n) ''.jpg'' \<or> endswith (lower n) ''.jpeg'' \<or> endswith (lower n) ''.png''"
  by (simp add: is_image_name_def)






subsection \<open>The ids of the annotations\<close>

lemma box_records_map_ids:
  assumes "box_records i r g"
  shows "map ann_ids g = map (\<lambda>k. (Some (JInt i), Some (JInt k))) [1..int (length (boxes r))]"
proof -
  from assms obtain b where b: "obb r = Some b"
    and l: "list_all2 (\<lambda>(k, x) a. calculate_bbox k i (cls b) x = Inr a) (py_enumerate 1 (xywhr b)) g"
    by (auto simp: box_records_def)
  have "map ann_ids g = map (\<lambda>(k, x). (Some (JInt i), Some (JInt k))) (py_enumerate 1 (xywhr b))"
    using l
  proof (rule list_all2_map_eq)
    fix p a
    assume "(case p of (k, x) \<Rightarrow> \<lambda>a. calculate_bbox k i (cls b) x = Inr a) a"
    then have "calculate_bbox (fst p) i (cls b) (snd p) = Inr a" by (simp add: case_prod_beta)
    from calculate_bbox_Inr(1,2) [OF this]
    show "ann_ids a = (case p of (k, x) \<Rightarrow> (Some (JInt i), Some (JInt k)))"
      by (simp add: ann_ids_def case_prod_beta)
  qed
  also have "\<dots> = map (\<lambda>k. (Some (JInt i), Some (JInt k))) (map fst (py_enumerate 1 (xywhr b)))"
    by (simp add: case_prod_beta)
  also have "map fst (py_enumerate 1 (xywhr b)) = [1..int (length (xywhr b))]"
    by (simp add: map_fst_py_enumerate)
  finally show ?thesis using b by (simp add: boxes_def)
qed

lemma groups_map_ids:
  assumes "list_all2 (\<lambda>(i, r) g. box_records i r g) (py_enumerate s rs) groups"
  shows "map ann_ids (concat groups) = id_pairs s (map (\<lambda>r. length (boxes r)) rs)"
  using assms
proof (induction rs arbitrary: s groups)
  case Nil
  then show ?case by (simp add: id_pairs_def)
next
  case (Cons r rs)
  from Cons.prems obtain g gs where groups: "groups = g # gs"
    and g: "box_records s r g"
    and gs: "list_all2 (\<lambda>(i, r) g. box_records i r g) (py_enumerate (s + 1) rs) gs"
    by (auto simp: list_all2_Cons1)
  have "id_pairs s (map (\<lambda>r. length (boxes r)) (r # rs)) =
          map (\<lambda>k. (Some (JInt s), Some (JInt k))) [1..int (length (boxes r))] @
          id_pairs (s + 1) (map (\<lambda>r. length (boxes r)) rs)"
    by (simp add: id_pairs_def)
  with Cons.IH [OF gs] box_records_map_ids [OF g] groups show ?case by simp
qed

lemma id_pairs_fst:
  assumes "p \<in> set (id_pairs s ns)"
  shows "\<exists>i \<ge> s. fst p = Some (JInt i)"
  using assms
proof (induction ns arbitrary: s)
  case Nil
  then show ?case by (simp add: id_pairs_def)
next
  case (Cons n ns)
  from Cons.prems consider "fst p = Some (JInt s)" | "p \<in> set (id_pairs (s + 1) ns)"
    by (auto simp: id_pairs_def)
  then show ?case
  proof cases
    case 1
    then show ?thesis by auto
  next
    case 2
    from Cons.IH [OF this] obtain i where "s + 1 \<le> i" "fst p = Some (JInt i)" by blast
    then have "s \<le> i \<and> fst p = Some (JInt i)" by simp
    then show ?thesis by blast
  qed
qed

lemma id_pairs_Cons:
  "id_pairs s (n # ns) = map (\<lambda>k. (Some (JInt s), Some (JInt k))) [1..int n] @ id_pairs (s + 1) ns"
  by (simp add: id_pairs_def)

lemma distinct_id_pairs: "distinct (id_pairs s ns)"
proof (induction ns arbitrary: s)
  case Nil
  then show ?case by (simp add: id_pairs_def)
next
  case (Cons n ns)
  have "distinct (map (\<lambda>k. (Some (JInt s), Some (JInt k))) [1..int n])"
    by (simp add: distinct_map inj_on_def)
  moreover have "set (map (\<lambda>k. (Some (JInt s), Some (JInt k))) [1..int n]) \<inter> set (id_pairs (s + 1) ns) = {}"
  proof (rule ccontr)
    assume "\<not> ?thesis"
    then obtain p where p: "p \<in> set (map (\<lambda>k. (Some (JInt s), Some (JInt k))) [1..int n])"
      "p \<in> set (id_pairs (s + 1) ns)" by blast
    from p(1) have "fst p = Some (JInt s)" by auto
    moreover from id_pairs_fst [OF p(2)] obtain i where "s + 1 \<le> i" "fst p = Some (JInt i)" by blast
    ultimately show False by simp
  qed
  ultimately show ?case using Cons.IH [of "s + 1"] by (simp add: id_pairs_Cons)
qed

lemma id_pairs_per_image:
  "map snd (filter (\<lambda>p. fst p = Some (JInt i)) (id_pairs s ns)) =
     map (\<lambda>k. Some (JInt k)) [1..int (length (filter (\<lambda>p. fst p = Some (JInt i)) (id_pairs s ns)))]"
proof (induction ns arbitrary: s)
  case Nil
  then show ?case by (simp add: id_pairs_def)
next
  case (Cons n ns)
  show ?case
  proof (cases "i = s")
    case True
    have "filter (\<lambda>p. fst p = Some (JInt i)) (id_pairs (s + 1) ns) = []"
    proof (rule filter_False, rule ballI)
      fix p assume "p \<in> set (id_pairs (s + 1) ns)"
      from id_pairs_fst [OF this] True show "\<not> fst p = Some (JInt i)" by auto
    qed
    moreover have "filter (\<lambda>p. fst p = Some (JInt i)) (map (\<lambda>k. (Some (JInt s), Some (JInt k))) [1..int n])
        = map (\<lambda>k. (Some (JInt s), Some (JInt k))) [1..int n]"
      using True by (simp add: filter_map comp_def)
    ultimately show ?thesis by (simp add: id_pairs_Cons comp_def)
  next
    case False
    then have "filter (\<lambda>p. fst p = Some (JInt i)) (map (\<lambda>k. (Some (JInt s), Some (JInt k))) [1..int n]) = []"
      by (simp add: filter_map comp_def)
    with Cons.IH [of "s + 1"] show ?thesis by (simp add: id_pairs_Cons)
  qed
qed

lemma groups_structure:
  assumes "list_all2 (\<lambda>(i, r) g. box_records i r g) (py_enumerate 1 rs) groups"
  shows "length groups = length rs"
    and "j < length rs \<Longrightarrow> box_records (int j + 1) (rs ! j) (groups ! j)"
proof -
  from assms show len: "length groups = length rs"
    by (simp add: list_all2_lengthD [symmetric] length_py_enumerate)
  assume j: "j < length rs"
  with assms len have "(\<lambda>(i, r) g. box_records i r g) (py_enumerate 1 rs ! j) (groups ! j)"
    by (simp add: list_all2_conv_all_nth length_py_enumerate)
  with j show "box_records (int j + 1) (rs ! j) (groups ! j)"
    by (simp add: nth_py_enumerate add.commute)
qed

lemma length_id_pairs: "length (id_pairs s ns) = sum_list ns"
  by (induction ns arbitrary: s) (simp_all add: id_pairs_Cons, simp add: id_pairs_def)

lemma main_ignores_save_path:
  assumes "main os C = (tr, Inr ())"
    and "case q of None \<Rightarrow> True | Some p \<Rightarrow> path_exists os p"
  shows "main os (C\<lparr>save_annotations_path := q\<rparr>) = (tr, Inr ())"
proof -
  let ?C = "C\<lparr>save_annotations_path := q\<rparr>"
  from assms(1) obtain ls where ok: "paths_ok os C" and ls: "labels C = LabelList ls"
    by (auto elim: main_Inr)
  obtain names where names: "listdir os (images_path C) = Some names"
    using assms(1) main_listdir_fails [OF ok ls] by (cases "listdir os (images_path C)") auto
  have ok': "paths_ok os ?C"
    using ok assms(2) by (simp add: paths_ok_def)
  have ls': "labels ?C = LabelList ls" using ls by simp
  have names': "listdir os (images_path ?C) = Some names" using names by simp
  have "main os ?C = main os C"
    unfolding main_loop [OF ok ls names] main_loop [OF ok' ls' names']
    by (simp add: setup_events_def)
  with assms(1) show ?thesis by simp
qed




subsection \<open>The concrete run\<close>

lemmas eval_defs = main_def Let_def curdir_def join_def startswith_def endswith_def
  load_images_def is_image_name_def lower_def lower_char_def basename_def rfind_def
  splitext_def save_result_def str_nat.simps digit_char_def calculate_bbox_def py_index_def
  py_int_def degrees_def new_image_def dict_update_def coco_header_def categories_of_def

lemma example_run: "main example_env example_constants = (example_trace, Inr ())"
  by (simp add: example_env_def example_constants_def example_result_def eval_defs
      example_trace_def example_document_def example_image_def example_annotation_def)

lemma example_results:
  "run_results example_env example_constants =
     [example_result ''imgs/a.png'', example_result ''imgs/b.JPG'']"
  by (simp add: run_results_def example_env_def example_constants_def load_images_def
      join_def startswith_def endswith_def is_image_name_def lower_def lower_char_def)




section \<open>Properties of the script\<close>

subsection \<open>The box and the rotation of an annotation\<close>

text \<open>
  C1. For an oriented box with the values \<open>(x, y, width, height, r)\<close> whose class label is
  read without an \<^verbatim>\<open>IndexError\<close>, \<open>calculate_bbox\<close> returns a record whose \<open>bbox\<close> field is
  \<open>[x - width/2, y - height/2, width, height]\<close> and whose \<open>attributes.rotation\<close> field is
  \<open>r\<close> converted from radians to degrees, \<open>r * 180 / pi\<close>.
\<close>

theorem calculate_bbox_box_and_rotation:
  assumes "py_index r_labels (bbox_id - 1) = Inr label"
  shows "\<exists>d attrs.
           calculate_bbox bbox_id img_id r_labels [x, y, width, height, r] = Inr d \<and>
           jget d ''bbox'' =
             Some (JList [JFloat (x - width / 2), JFloat (y - height / 2),
                          JFloat width, JFloat height]) \<and>
           jget d ''attributes'' = Some attrs \<and>
           jget attrs ''rotation'' = Some (JFloat (r * 180 / pi))"
  using assms by (simp add: calculate_bbox_def degrees_def)

theorem calculate_bbox_box_and_rotation_witness:
  "py_index [0, 1 :: real] (1 - 1) = Inr 0 \<and>
   (\<exists>d attrs.
      calculate_bbox 1 7 [0, 1] [10, 20, 4, 6, pi / 2] = Inr d \<and>
      jget d ''bbox'' = Some (JList [JFloat 8, JFloat 17, JFloat 4, JFloat 6]) \<and>
      jget d ''attributes'' = Some attrs \<and>
      jget attrs ''rotation'' = Some (JFloat 90))"
proof -
  have h: "py_index [0, 1 :: real] (1 - 1) = Inr 0"
    by (simp add: py_index_def)
  from calculate_bbox_box_and_rotation [OF h, of 7 10 20 4 6 "pi / 2"]
  show ?thesis using h by simp
qed

subsection \<open>Uniqueness of the ids\<close>

text \<open>
  C2, as stated: in every generated document no two records of the annotations list share an
  id. The concrete run has two images with two boxes each, and its annotations carry the ids
  1, 2, 1, 2.
\<close>

theorem annotation_ids_repeat:
  "snd (main example_env example_constants) = Inr () \<and>
   map json_id (doc_list ''annotations'' (fst (main example_env example_constants))) =
     [Some (JInt 1), Some (JInt 2), Some (JInt 1), Some (JInt 2)] \<and>
   \<not> distinct (map json_id (doc_list ''annotations'' (fst (main example_env example_constants))))"
  by (simp add: example_run example_trace_def doc_list_def written_def example_document_def
      json_id_def example_annotation_def)

text \<open>
  C2, amended. In the document of every completed run the ids of the categories list are
  \<open>1, \<dots>, n\<close> in order and so are the ids of the images list, hence unique in their lists.
  In the annotations list the pair of image id and annotation id is unique, and for every
  image id the annotation ids of that image, in list order, are \<open>1, \<dots>, m\<close>; the annotation
  id alone is not unique across images.
\<close>

theorem ids_unique_and_sequential:
  assumes "main os C = (tr, Inr ())"
  shows "\<exists>doc cats imgs anns.
           written tr = [(''./instances.json'', doc)] \<and>
           jget doc ''categories'' = Some (JList cats) \<and>
           jget doc ''images'' = Some (JList imgs) \<and>
           jget doc ''annotations'' = Some (JList anns) \<and>
           map json_id cats = map (\<lambda>i. Some (JInt i)) [1..int (length cats)] \<and>
           distinct (map json_id cats) \<and>
           map json_id imgs = map (\<lambda>i. Some (JInt i)) [1..int (length imgs)] \<and>
           distinct (map json_id imgs) \<and>
           distinct (map ann_ids anns) \<and>
           (\<forall>i. map json_id (filter (\<lambda>a. jget a ''image_id'' = Some (JInt i)) anns) =
                  map (\<lambda>k. Some (JInt k))
                    [1..int (length (filter (\<lambda>a. jget a ''image_id'' = Some (JInt i)) anns))])"
proof -
  let ?rs = "run_results os C"
  let ?imgs = "map (\<lambda>(i, r). new_image i r) (py_enumerate 1 ?rs)"
  from assms obtain ls groups where
    groups: "list_all2 (\<lambda>(i, r) g. box_records i r g) (py_enumerate 1 ?rs) groups"
    and w: "written tr = [(''./instances.json'', document ls ?imgs (concat groups))]"
    by (rule main_document)
  let ?anns = "concat groups"
  let ?ns = "map (\<lambda>r. length (boxes r)) ?rs"
  have ids: "map ann_ids ?anns = id_pairs 1 ?ns"
    using groups by (rule groups_map_ids)
  have cats: "map json_id (categories_of ls) = map (\<lambda>i. Some (JInt i)) [1..int (length (categories_of ls))]"
  proof -
    have "map json_id (categories_of ls) = map (\<lambda>i. Some (JInt i)) (map fst (py_enumerate 1 ls))"
      by (simp add: categories_of_def json_id_def case_prod_beta comp_def)
    then show ?thesis
      by (simp add: map_fst_py_enumerate length_categories_of)
  qed
  have imgs: "map json_id ?imgs = map (\<lambda>i. Some (JInt i)) [1..int (length ?imgs)]"
  proof -
    have "map json_id ?imgs = map (\<lambda>i. Some (JInt i)) (map fst (py_enumerate 1 ?rs))"
      by (simp add: new_image_def json_id_def case_prod_beta comp_def)
    then show ?thesis
      by (simp add: map_fst_py_enumerate length_py_enumerate)
  qed
  have inj: "distinct (map (\<lambda>i. Some (JInt i)) [1..n])" for n
    by (simp add: distinct_map inj_on_def)
  have per: "map json_id (filter (\<lambda>a. jget a ''image_id'' = Some (JInt i)) ?anns) =
        map (\<lambda>k. Some (JInt k))
          [1..int (length (filter (\<lambda>a. jget a ''image_id'' = Some (JInt i)) ?anns))]" for i
  proof -
    have f: "filter (\<lambda>p. fst p = Some (JInt i)) (map ann_ids ?anns) =
               map ann_ids (filter (\<lambda>a. jget a ''image_id'' = Some (JInt i)) ?anns)"
      by (simp add: filter_map comp_def ann_ids_def)
    have "map json_id (filter (\<lambda>a. jget a ''image_id'' = Some (JInt i)) ?anns) =
            map snd (filter (\<lambda>p. fst p = Some (JInt i)) (map ann_ids ?anns))"
      unfolding f by (simp add: comp_def ann_ids_def json_id_def)
    also have "\<dots> = map (\<lambda>k. Some (JInt k))
          [1..int (length (filter (\<lambda>p. fst p = Some (JInt i)) (map ann_ids ?anns)))]"
      unfolding ids by (rule id_pairs_per_image)
    also have "length (filter (\<lambda>p. fst p = Some (JInt i)) (map ann_ids ?anns)) =
        length (filter (\<lambda>a. jget a ''image_id'' = Some (JInt i)) ?anns)"
      unfolding f by simp
    finally show ?thesis .
  qed
  have "distinct (map ann_ids ?anns)"
    unfolding ids by (rule distinct_id_pairs)
  with w cats imgs per show ?thesis
    by (intro exI [of _ "document ls ?imgs ?anns"] exI [of _ "categories_of ls"]
        exI [of _ ?imgs] exI [of _ ?anns]) (simp add: document_fields inj)
qed

theorem ids_unique_and_sequential_witness:
  "main example_env example_constants = (example_trace, Inr ()) \<and>
   (\<exists>doc cats imgs anns.
           written example_trace = [(''./instances.json'', doc)] \<and>
           jget doc ''categories'' = Some (JList cats) \<and>
           jget doc ''images'' = Some (JList imgs) \<and>
           jget doc ''annotations'' = Some (JList anns) \<and>
           map json_id cats = map (\<lambda>i. Some (JInt i)) [1..int (length cats)] \<and>
           distinct (map json_id cats) \<and>
           map json_id imgs = map (\<lambda>i. Some (JInt i)) [1..int (length imgs)] \<and>
           distinct (map json_id imgs) \<and>
           distinct (map ann_ids anns) \<and>
           (\<forall>i. map json_id (filter (\<lambda>a. jget a ''image_id'' = Some (JInt i)) anns) =
                  map (\<lambda>k. Some (JInt k))
                    [1..int (length (filter (\<lambda>a. jget a ''image_id'' = Some (JInt i)) anns))]))"
  using example_run ids_unique_and_sequential [OF example_run] by (rule conjI)

subsection \<open>The assignment of the ids\<close>

text \<open>
  C3. In the document of a completed run the k-th category (counting from 0) has the id
  \<open>k + 1\<close> and the name of the k-th configured label; the j-th image record has the id
  \<open>j + 1\<close>; the annotations list is the concatenation of one group per result, in order,
  the j-th group has one record per box of the j-th result, and its k-th record carries the
  image id \<open>j + 1\<close> and the annotation id \<open>k + 1\<close>.
\<close>

theorem ids_by_enumeration:
  assumes "main os C = (tr, Inr ())"
  shows "\<exists>ls doc cats imgs groups.
           labels C = LabelList ls \<and>
           written tr = [(''./instances.json'', doc)] \<and>
           jget doc ''categories'' = Some (JList cats) \<and>
           jget doc ''images'' = Some (JList imgs) \<and>
           jget doc ''annotations'' = Some (JList (concat groups)) \<and>
           length cats = length ls \<and>
           (\<forall>k < length ls. jget (cats ! k) ''id'' = Some (JInt (int k + 1)) \<and>
                             jget (cats ! k) ''name'' = Some (JStr (ls ! k))) \<and>
           length imgs = length (run_results os C) \<and>
           (\<forall>j < length (run_results os C). jget (imgs ! j) ''id'' = Some (JInt (int j + 1))) \<and>
           length groups = length (run_results os C) \<and>
           (\<forall>j < length (run_results os C).
               length (groups ! j) = length (boxes (run_results os C ! j)) \<and>
               (\<forall>k < length (groups ! j).
                   ann_ids (groups ! j ! k) = (Some (JInt (int j + 1)), Some (JInt (int k + 1)))))"
proof -
  let ?rs = "run_results os C"
  let ?imgs = "map (\<lambda>(i, r). new_image i r) (py_enumerate 1 ?rs)"
  from assms obtain ls groups where
    ls: "labels C = LabelList ls"
    and groups: "list_all2 (\<lambda>(i, r) g. box_records i r g) (py_enumerate 1 ?rs) groups"
    and w: "written tr = [(''./instances.json'', document ls ?imgs (concat groups))]"
    by (rule main_document)
  have cats: "\<forall>k < length ls. jget (categories_of ls ! k) ''id'' = Some (JInt (int k + 1)) \<and>
                             jget (categories_of ls ! k) ''name'' = Some (JStr (ls ! k))"
    by (simp add: categories_of_nth)
  have imgs: "\<forall>j < length ?rs. jget (?imgs ! j) ''id'' = Some (JInt (int j + 1))"
  proof (intro allI impI)
    fix j assume "j < length ?rs"
    then have "?imgs ! j = new_image (int j + 1) (?rs ! j)" by (rule images_nth)
    then show "jget (?imgs ! j) ''id'' = Some (JInt (int j + 1))"
      by (simp only: new_image_fields)
  qed
  have grp: "\<forall>j < length ?rs.
               length (groups ! j) = length (boxes (?rs ! j)) \<and>
               (\<forall>k < length (groups ! j).
                   ann_ids (groups ! j ! k) = (Some (JInt (int j + 1)), Some (JInt (int k + 1))))"
    using groups_structure(2) [OF groups] box_records_ids by blast
  have len: "length groups = length ?rs"
    using groups by (rule groups_structure(1))
  from ls w cats imgs grp len show ?thesis
    by (intro exI [of _ ls] exI [of _ "document ls ?imgs (concat groups)"]
        exI [of _ "categories_of ls"] exI [of _ ?imgs] exI [of _ groups])
      (simp add: document_fields length_categories_of length_py_enumerate)
qed

theorem ids_by_enumeration_witness:
  "main example_env example_constants = (example_trace, Inr ()) \<and>
   (\<exists>ls doc cats imgs groups.
           labels example_constants = LabelList ls \<and>
           written example_trace = [(''./instances.json'', doc)] \<and>
           jget doc ''categories'' = Some (JList cats) \<and>
           jget doc ''images'' = Some (JList imgs) \<and>
           jget doc ''annotations'' = Some (JList (concat groups)) \<and>
           length cats = length ls \<and>
           (\<forall>k < length ls. jget (cats ! k) ''id'' = Some (JInt (int k + 1)) \<and>
                             jget (cats ! k) ''name'' = Some (JStr (ls ! k))) \<and>
           length imgs = length (run_results example_env example_constants) \<and>
           (\<forall>j < length (run_results example_env example_constants). jget (imgs ! j) ''id'' = Some (JInt (int j + 1))) \<and>
           length groups = length (run_results example_env example_constants) \<and>
           (\<forall>j < length (run_results example_env example_constants).
               length (groups ! j) = length (boxes (run_results example_env example_constants ! j)) \<and>
               (\<forall>k < length (groups ! j).
                   ann_ids (groups ! j ! k) = (Some (JInt (int j + 1)), Some (JInt (int k + 1))))))"
  using example_run ids_by_enumeration [OF example_run] by (rule conjI)

subsection \<open>Where the document is written\<close>

text \<open>
  C4. Whenever \<open>main\<close> completes without raising, exactly one JSON document has been written,
  and it has been written to \<open>instances.json\<close> in the current directory, \<open>./instances.json\<close>.
  The configured \<open>save_annotations_path\<close> is only validated: with any other value that passes
  the validation, an existing directory or none, the run is the same, so a configured
  directory is never the output location.
\<close>

theorem json_written_to_curdir:
  assumes "main os C = (tr, Inr ())"
  shows "\<exists>doc. written tr = [(join curdir ''instances.json'', doc)] \<and>
               join curdir ''instances.json'' = ''./instances.json'' \<and>
               (\<forall>q. (case q of None \<Rightarrow> True | Some p \<Rightarrow> path_exists os p) \<longrightarrow>
                    main os (C\<lparr>save_annotations_path := q\<rparr>) = (tr, Inr ()))"
proof -
  from assms obtain ls groups where
    "written tr =
       [(''./instances.json'',
         document ls (map (\<lambda>(i, r). new_image i r) (py_enumerate 1 (run_results os C)))
           (concat groups))]"
    by (rule main_document)
  moreover have "\<forall>q. (case q of None \<Rightarrow> True | Some p \<Rightarrow> path_exists os p) \<longrightarrow>
                    main os (C\<lparr>save_annotations_path := q\<rparr>) = (tr, Inr ())"
    using main_ignores_save_path [OF assms] by blast
  ultimately show ?thesis by (simp add: paths_eval)
qed

theorem json_written_to_curdir_witness:
  "save_annotations_path example_constants = Some ''/out'' \<and>
   path_exists example_env ''/out'' \<and>
   main example_env example_constants = (example_trace, Inr ()) \<and>
   (\<exists>doc. written example_trace = [(join curdir ''instances.json'', doc)] \<and>
               join curdir ''instances.json'' = ''./instances.json'' \<and>
               (\<forall>q. (case q of None \<Rightarrow> True | Some p \<Rightarrow> path_exists example_env p) \<longrightarrow>
                    main example_env (example_constants\<lparr>save_annotations_path := q\<rparr>) =
                      (example_trace, Inr ())))"
proof -
  have "save_annotations_path example_constants = Some ''/out''"
    by (simp add: example_constants_def)
  moreover have "path_exists example_env ''/out''"
    by (simp add: example_env_def)
  ultimately show ?thesis
    using example_run json_written_to_curdir [OF example_run] by (intro conjI)
qed

subsection \<open>The shape of the document\<close>

text \<open>
  C5. The document written by a completed run is a mapping with exactly the keys
  \<open>licenses\<close>, \<open>info\<close>, \<open>categories\<close>, \<open>images\<close> and \<open>annotations\<close>, in this order. \<open>licenses\<close>
  and \<open>info\<close> hold the fixed metadata records, \<open>categories\<close> holds one record per configured
  label (the names are the labels, in order), \<open>images\<close> holds one record per prediction result
  (the file names are the base names of the results' paths, in order), and \<open>annotations\<close>
  holds as many records as there are oriented boxes in all results together.
\<close>

theorem document_shape:
  assumes "main os C = (tr, Inr ())"
  shows "\<exists>ls kvs cats imgs anns.
           labels C = LabelList ls \<and>
           written tr = [(''./instances.json'', JDict kvs)] \<and>
           map fst kvs = [''licenses'', ''info'', ''categories'', ''images'', ''annotations''] \<and>
           map_of kvs ''licenses'' =
             Some (JList [JDict [(''name'', JStr []), (''id'', JInt 0), (''url'', JStr [])]]) \<and>
           map_of kvs ''info'' =
             Some (JDict [(''contributor'', JStr []), (''date_created'', JStr []),
                          (''description'', JStr []), (''url'', JStr []),
                          (''version'', JStr []), (''year'', JStr [])]) \<and>
           map_of kvs ''categories'' = Some (JList cats) \<and>
           map (\<lambda>c. jget c ''name'') cats = map (\<lambda>l. Some (JStr l)) ls \<and>
           map_of kvs ''images'' = Some (JList imgs) \<and>
           map (\<lambda>m. jget m ''file_name'') imgs =
             map (\<lambda>r. Some (JStr (basename (path r)))) (run_results os C) \<and>
           map_of kvs ''annotations'' = Some (JList anns) \<and>
           length anns = sum_list (map (\<lambda>r. length (boxes r)) (run_results os C))"
proof -
  let ?rs = "run_results os C"
  let ?imgs = "map (\<lambda>(i, r). new_image i r) (py_enumerate 1 ?rs)"
  from assms obtain ls groups where
    ls: "labels C = LabelList ls"
    and groups: "list_all2 (\<lambda>(i, r) g. box_records i r g) (py_enumerate 1 ?rs) groups"
    and w: "written tr = [(''./instances.json'', document ls ?imgs (concat groups))]"
    by (rule main_document)
  let ?kvs = "coco_header @ [(''categories'', JList (categories_of ls)),
                (''images'', JList ?imgs), (''annotations'', JList (concat groups))]"
  have doc: "document ls ?imgs (concat groups) = JDict ?kvs"
    by (simp add: document_def)
  have keys: "map fst ?kvs = [''licenses'', ''info'', ''categories'', ''images'', ''annotations'']"
    by (simp add: coco_header_def)
  have names: "map (\<lambda>c. jget c ''name'') (categories_of ls) = map (\<lambda>l. Some (JStr l)) ls"
  proof -
    have "map (\<lambda>c. jget c ''name'') (categories_of ls) =
            map (\<lambda>l. Some (JStr l)) (map snd (py_enumerate 1 ls))"
      by (simp add: categories_of_def case_prod_beta comp_def)
    then show ?thesis by (simp only: map_snd_py_enumerate)
  qed
  have files: "map (\<lambda>m. jget m ''file_name'') ?imgs = map (\<lambda>r. Some (JStr (basename (path r)))) ?rs"
  proof -
    have "map (\<lambda>m. jget m ''file_name'') ?imgs =
            map (\<lambda>r. Some (JStr (basename (path r)))) (map snd (py_enumerate 1 ?rs))"
      by (simp add: new_image_fields case_prod_beta comp_def)
    then show ?thesis by (simp only: map_snd_py_enumerate)
  qed
  have "length (concat groups) = length (map ann_ids (concat groups))" by simp
  also have "\<dots> = sum_list (map (\<lambda>r. length (boxes r)) ?rs)"
    unfolding groups_map_ids [OF groups] by (rule length_id_pairs)
  finally have count: "length (concat groups) = sum_list (map (\<lambda>r. length (boxes r)) ?rs)" .
  have look: "map_of ?kvs ''licenses'' =
             Some (JList [JDict [(''name'', JStr []), (''id'', JInt 0), (''url'', JStr [])]])"
    "map_of ?kvs ''info'' =
             Some (JDict [(''contributor'', JStr []), (''date_created'', JStr []),
                          (''description'', JStr []), (''url'', JStr []),
                          (''version'', JStr []), (''year'', JStr [])])"
    "map_of ?kvs ''categories'' = Some (JList (categories_of ls))"
    "map_of ?kvs ''images'' = Some (JList ?imgs)"
    "map_of ?kvs ''annotations'' = Some (JList (concat groups))"
    by (simp_all add: coco_header_def)
  from ls w doc keys look names files count show ?thesis
    by (intro exI [of _ ls] exI [of _ ?kvs] exI [of _ "categories_of ls"] exI [of _ ?imgs]
        exI [of _ "concat groups"]) (simp only: simp_thms)
qed

theorem document_shape_witness:
  "main example_env example_constants = (example_trace, Inr ()) \<and>
   (\<exists>ls kvs cats imgs anns.
           labels example_constants = LabelList ls \<and>
           written example_trace = [(''./instances.json'', JDict kvs)] \<and>
           map fst kvs = [''licenses'', ''info'', ''categories'', ''images'', ''annotations''] \<and>
           map_of kvs ''licenses'' =
             Some (JList [JDict [(''name'', JStr []), (''id'', JInt 0), (''url'', JStr [])]]) \<and>
           map_of kvs ''info'' =
             Some (JDict [(''contributor'', JStr []), (''date_created'', JStr []),
                          (''description'', JStr []), (''url'', JStr []),
                          (''version'', JStr []), (''year'', JStr [])]) \<and>
           map_of kvs ''categories'' = Some (JList cats) \<and>
           map (\<lambda>c. jget c ''name'') cats = map (\<lambda>l. Some (JStr l)) ls \<and>
           map_of kvs ''images'' = Some (JList imgs) \<and>
           map (\<lambda>m. jget m ''file_name'') imgs =
             map (\<lambda>r. Some (JStr (basename (path r)))) (run_results example_env example_constants) \<and>
           map_of kvs ''annotations'' = Some (JList anns) \<and>
           length anns = sum_list (map (\<lambda>r. length (boxes r)) (run_results example_env example_constants)))"
  using example_run document_shape [OF example_run] by (rule conjI)

subsection \<open>Missing inputs\<close>

text \<open>
  C6. When the configured \<open>model_path\<close> does not exist or the configured \<open>images_path\<close> does
  not exist, \<open>main\<close> raises \<^verbatim>\<open>FileNotFoundError\<close>, and all it has done before is one print of
  the message: no directory is created, the detector is not constructed, no prediction is
  run and no file is written.
\<close>

theorem missing_input_raises_before_effects:
  assumes "\<not> path_exists os (model_path C) \<or> \<not> path_exists os (images_path C)"
  shows "\<exists>s m. main os C = ([Print s], Inl (FileNotFoundError m))"
proof (cases "path_exists os (model_path C)")
  case False
  from main_no_model [OF this] show ?thesis by blast
next
  case True
  with assms have "\<not> path_exists os (images_path C)" by simp
  from main_no_images [OF True this] show ?thesis by blast
qed

theorem missing_input_raises_before_effects_witness:
  "\<not> path_exists example_env (model_path (example_constants\<lparr>model_path := ''missing.pt''\<rparr>)) \<and>
   (\<exists>s m. main example_env (example_constants\<lparr>model_path := ''missing.pt''\<rparr>) =
            ([Print s], Inl (FileNotFoundError m)))"
proof -
  have h: "\<not> path_exists example_env (model_path (example_constants\<lparr>model_path := ''missing.pt''\<rparr>))"
    by (simp add: example_env_def)
  from h missing_input_raises_before_effects [OF disjI1, OF h] show ?thesis by (rule conjI)
qed

subsection \<open>The image records\<close>

text \<open>
  C7. In the document of a completed run, the image record of the i-th prediction result
  (here \<open>i = j + 1\<close>) has the id \<open>i\<close>, as width the second component of the result's
  original shape, as height the first component, and as file name the base name of the
  result's path.
\<close>

theorem image_records:
  assumes "main os C = (tr, Inr ())"
  shows "\<exists>doc imgs.
           written tr = [(''./instances.json'', doc)] \<and>
           jget doc ''images'' = Some (JList imgs) \<and>
           length imgs = length (run_results os C) \<and>
           (\<forall>j < length (run_results os C).
              jget (imgs ! j) ''id'' = Some (JInt (int j + 1)) \<and>
              jget (imgs ! j) ''width'' = Some (JInt (snd (orig_shape (run_results os C ! j)))) \<and>
              jget (imgs ! j) ''height'' = Some (JInt (fst (orig_shape (run_results os C ! j)))) \<and>
              jget (imgs ! j) ''file_name'' =
                Some (JStr (basename (path (run_results os C ! j)))))"
proof -
  let ?rs = "run_results os C"
  let ?imgs = "map (\<lambda>(i, r). new_image i r) (py_enumerate 1 ?rs)"
  from assms obtain ls groups where
    w: "written tr = [(''./instances.json'', document ls ?imgs (concat groups))]"
    by (rule main_document)
  have "\<forall>j < length ?rs.
              jget (?imgs ! j) ''id'' = Some (JInt (int j + 1)) \<and>
              jget (?imgs ! j) ''width'' = Some (JInt (snd (orig_shape (?rs ! j)))) \<and>
              jget (?imgs ! j) ''height'' = Some (JInt (fst (orig_shape (?rs ! j)))) \<and>
              jget (?imgs ! j) ''file_name'' = Some (JStr (basename (path (?rs ! j))))"
  proof (intro allI impI)
    fix j assume "j < length ?rs"
    then have "?imgs ! j = new_image (int j + 1) (?rs ! j)" by (rule images_nth)
    then show "jget (?imgs ! j) ''id'' = Some (JInt (int j + 1)) \<and>
              jget (?imgs ! j) ''width'' = Some (JInt (snd (orig_shape (?rs ! j)))) \<and>
              jget (?imgs ! j) ''height'' = Some (JInt (fst (orig_shape (?rs ! j)))) \<and>
              jget (?imgs ! j) ''file_name'' = Some (JStr (basename (path (?rs ! j))))"
      by (simp only: new_image_fields simp_thms)
  qed
  with w show ?thesis
    by (intro exI [of _ "document ls ?imgs (concat groups)"] exI [of _ ?imgs])
      (simp add: document_fields length_py_enumerate)
qed

theorem image_records_witness:
  "main example_env example_constants = (example_trace, Inr ()) \<and>
   (\<exists>doc imgs.
           written example_trace = [(''./instances.json'', doc)] \<and>
           jget doc ''images'' = Some (JList imgs) \<and>
           length imgs = length (run_results example_env example_constants) \<and>
           (\<forall>j < length (run_results example_env example_constants).
              jget (imgs ! j) ''id'' = Some (JInt (int j + 1)) \<and>
              jget (imgs ! j) ''width'' = Some (JInt (snd (orig_shape (run_results example_env example_constants ! j)))) \<and>
              jget (imgs ! j) ''height'' = Some (JInt (fst (orig_shape (run_results example_env example_constants ! j)))) \<and>
              jget (imgs ! j) ''file_name'' =
                Some (JStr (basename (path (run_results example_env example_constants ! j))))))"
  using example_run image_records [OF example_run] by (rule conjI)

subsection \<open>The selection of the images\<close>

text \<open>
  C8. The paths handed to the detector are the joins of \<open>images_path\<close> with exactly those names
  of its listing that are regular files and whose lower-cased name ends in \<open>.jpg\<close>, \<open>.jpeg\<close> or
  \<open>.png\<close>, in lexicographically sorted order of the full path. The results of the run are what
  the detector yields for this list, and when it yields them in the order of the list, the
  image record with the id \<open>j + 1\<close> belongs to the j-th path of the sorted list.
\<close>

theorem image_selection:
  assumes "main os C = (tr, X)" "Predict ps \<in> set tr"
  shows "\<exists>names.
           listdir os (images_path C) = Some names \<and>
           ps = sort (map (join (images_path C))
                  (filter (\<lambda>n. path_isfile os (join (images_path C) n) \<and>
                     (endswith (lower n) ''.jpg'' \<or> endswith (lower n) ''.jpeg'' \<or>
                      endswith (lower n) ''.png'')) names)) \<and>
           sorted ps \<and>
           set ps = {join (images_path C) n | n.
                       n \<in> set names \<and> path_isfile os (join (images_path C) n) \<and>
                       (endswith (lower n) ''.jpg'' \<or> endswith (lower n) ''.jpeg'' \<or>
                        endswith (lower n) ''.png'')} \<and>
           run_results os C = predict os (model_path C) ps \<and>
           (X = Inr () \<and> map path (run_results os C) = ps \<longrightarrow>
              (\<exists>doc imgs.
                 written tr = [(''./instances.json'', doc)] \<and>
                 jget doc ''images'' = Some (JList imgs) \<and>
                 length imgs = length ps \<and>
                 (\<forall>j < length ps.
                    jget (imgs ! j) ''id'' = Some (JInt (int j + 1)) \<and>
                    jget (imgs ! j) ''file_name'' = Some (JStr (basename (ps ! j))))))"
proof -
  from main_predict [OF assms] obtain names where
    names: "listdir os (images_path C) = Some names"
    and ps: "ps = load_images os (images_path C) names" by blast
  let ?sel = "\<lambda>n. path_isfile os (join (images_path C) n) \<and>
                     (endswith (lower n) ''.jpg'' \<or> endswith (lower n) ''.jpeg'' \<or>
                      endswith (lower n) ''.png'')"
  have eq: "ps = sort (map (join (images_path C)) (filter ?sel names))"
    unfolding ps load_images_def is_image_name_iff ..
  have srt: "sorted ps" unfolding eq by simp
  have st: "set ps = {join (images_path C) n | n. n \<in> set names \<and> ?sel n}"
    unfolding eq by auto
  have rs: "run_results os C = predict os (model_path C) ps"
    using names ps by (simp add: run_results_def)
  have ids: "\<exists>doc imgs.
                 written tr = [(''./instances.json'', doc)] \<and>
                 jget doc ''images'' = Some (JList imgs) \<and>
                 length imgs = length ps \<and>
                 (\<forall>j < length ps.
                    jget (imgs ! j) ''id'' = Some (JInt (int j + 1)) \<and>
                    jget (imgs ! j) ''file_name'' = Some (JStr (basename (ps ! j))))"
    if X: "X = Inr ()" and order: "map path (run_results os C) = ps"
  proof -
    let ?rs = "run_results os C"
    let ?imgs = "map (\<lambda>(i, r). new_image i r) (py_enumerate 1 ?rs)"
    from assms(1) X have "main os C = (tr, Inr ())" by simp
    then obtain ls groups where
      w: "written tr = [(''./instances.json'', document ls ?imgs (concat groups))]"
      by (rule main_document)
    have len: "length ?rs = length ps"
      using order by (metis length_map)
    have "\<forall>j < length ps.
            jget (?imgs ! j) ''id'' = Some (JInt (int j + 1)) \<and>
            jget (?imgs ! j) ''file_name'' = Some (JStr (basename (ps ! j)))"
    proof (intro allI impI)
      fix j assume j: "j < length ps"
      with len have "?imgs ! j = new_image (int j + 1) (?rs ! j)" by (simp only: images_nth)
      moreover have "path (?rs ! j) = ps ! j"
        using j len order by (metis nth_map)
      ultimately show "jget (?imgs ! j) ''id'' = Some (JInt (int j + 1)) \<and>
            jget (?imgs ! j) ''file_name'' = Some (JStr (basename (ps ! j)))"
        by (simp only: new_image_fields simp_thms)
    qed
    with w len show ?thesis
      by (intro exI [of _ "document ls ?imgs (concat groups)"] exI [of _ ?imgs])
        (simp add: document_fields length_py_enumerate)
  qed
  from names eq srt st rs ids show ?thesis by blast
qed

theorem image_selection_witness:
  "main example_env example_constants = (example_trace, Inr ()) \<and>
   Predict [''imgs/a.png'', ''imgs/b.JPG''] \<in> set example_trace \<and>
   map path (run_results example_env example_constants) = [''imgs/a.png'', ''imgs/b.JPG''] \<and>
   (\<exists>names.
      listdir example_env (images_path example_constants) = Some names \<and>
      sorted [''imgs/a.png'', ''imgs/b.JPG''] \<and>
      set [''imgs/a.png'', ''imgs/b.JPG''] =
        {join (images_path example_constants) n | n.
           n \<in> set names \<and> path_isfile example_env (join (images_path example_constants) n) \<and>
           (endswith (lower n) ''.jpg'' \<or> endswith (lower n) ''.jpeg'' \<or>
            endswith (lower n) ''.png'')} \<and>
      (\<exists>doc imgs.
         written example_trace = [(''./instances.json'', doc)] \<and>
         jget doc ''images'' = Some (JList imgs) \<and>
         length imgs = length [''imgs/a.png'', ''imgs/b.JPG''] \<and>
         (\<forall>j < length [''imgs/a.png'', ''imgs/b.JPG''].
            jget (imgs ! j) ''id'' = Some (JInt (int j + 1)) \<and>
            jget (imgs ! j) ''file_name'' =
              Some (JStr (basename ([''imgs/a.png'', ''imgs/b.JPG''] ! j))))))"
proof -
  have p: "Predict [''imgs/a.png'', ''imgs/b.JPG''] \<in> set example_trace"
    by (simp add: example_trace_def)
  have r: "map path (run_results example_env example_constants) = [''imgs/a.png'', ''imgs/b.JPG'']"
    by (simp add: example_results example_result_def)
  from image_selection [OF example_run p] r example_run p show ?thesis
    by blast
qed

subsection \<open>The optional saves\<close>




subsection \<open>The class label of an annotation\<close>

text \<open>
  C10. When in every prediction result of a run the class-label sequence and the box sequence
  have equal length, \<open>main\<close> does not raise \<^verbatim>\<open>IndexError\<close> (and it completes when, besides, the
  configuration is valid and every row has five values). In the document of a completed run,
  for every result with sequences of equal length, the group of its annotations has one
  record per box; for the k-th of them the index \<open>bbox_id - 1\<close> into the labels is in bounds,
  its \<open>category_id\<close> is the integer class value at that index plus one, and when that class
  value is a valid index into the configured labels, this is the id of the record at that
  index of the categories list, whose name is that label.
\<close>

theorem label_index_in_bounds:
  assumes "main os C = (tr, X)"
  shows "((\<forall>r \<in> set (run_results os C). \<forall>b. obb r = Some b \<longrightarrow>
             length (cls b) = length (xywhr b)) \<longrightarrow> X \<noteq> Inl IndexError) \<and>
         (paths_ok os C \<and> (\<exists>ls. labels C = LabelList ls) \<and>
          listdir os (images_path C) \<noteq> None \<and>
          (\<forall>r \<in> set (run_results os C). \<exists>b. obb r = Some b \<and>
             length (cls b) = length (xywhr b) \<and> list_all (\<lambda>x. length x = 5) (xywhr b)) \<longrightarrow>
          X = Inr ()) \<and>
         (X = Inr () \<longrightarrow>
            (\<exists>ls doc cats groups.
               labels C = LabelList ls \<and>
               written tr = [(''./instances.json'', doc)] \<and>
               jget doc ''categories'' = Some (JList cats) \<and>
               jget doc ''annotations'' = Some (JList (concat groups)) \<and>
               length groups = length (run_results os C) \<and>
               (\<forall>j < length (run_results os C). \<forall>b.
                  obb (run_results os C ! j) = Some b \<and> length (cls b) = length (xywhr b) \<longrightarrow>
                  length (groups ! j) = length (xywhr b) \<and>
                  (\<forall>k < length (xywhr b).
                     jget (groups ! j ! k) ''id'' = Some (JInt (int k + 1)) \<and>
                     py_index (cls b) (int k + 1 - 1) = Inr (cls b ! k) \<and>
                     jget (groups ! j ! k) ''category_id'' =
                       Some (JInt (py_int (cls b ! k) + 1)) \<and>
                     (0 \<le> py_int (cls b ! k) \<and> nat (py_int (cls b ! k)) < length ls \<longrightarrow>
                        jget (cats ! nat (py_int (cls b ! k))) ''id'' =
                          jget (groups ! j ! k) ''category_id'' \<and>
                        jget (cats ! nat (py_int (cls b ! k))) ''name'' =
                          Some (JStr (ls ! nat (py_int (cls b ! k)))))))))"
proof (intro conjI impI)
  assume eq: "\<forall>r \<in> set (run_results os C). \<forall>b. obb r = Some b \<longrightarrow>
                length (cls b) = length (xywhr b)"
  show "X \<noteq> Inl IndexError"
  proof
    assume "X = Inl IndexError"
    with assms have "main os C = (tr, Inl IndexError)" by simp
    from main_IndexError [OF this] obtain r b j acc where
      r: "r \<in> set (run_results os C)" "obb r = Some b"
      and e: "bbox_loop 1 j (cls b) (xywhr b) acc = Inl IndexError" by blast
    from eq r have "length (xywhr b) \<le> length (cls b)" by simp
    from bbox_loop_no_IndexError [OF this] e show False by blast
  qed
next
  assume h: "paths_ok os C \<and> (\<exists>ls. labels C = LabelList ls) \<and>
          listdir os (images_path C) \<noteq> None \<and>
          (\<forall>r \<in> set (run_results os C). \<exists>b. obb r = Some b \<and>
             length (cls b) = length (xywhr b) \<and> list_all (\<lambda>x. length x = 5) (xywhr b))"
  then obtain ls names where ok: "paths_ok os C" and ls: "labels C = LabelList ls"
    and names: "listdir os (images_path C) = Some names" by auto
  have "list_all well_formed (run_results os C)"
    unfolding list_all_iff
  proof
    fix r assume "r \<in> set (run_results os C)"
    with h obtain b where "obb r = Some b" "length (cls b) = length (xywhr b)"
      "list_all (\<lambda>x. length x = 5) (xywhr b)" by blast
    then show "well_formed r" by (simp add: well_formed_def)
  qed
  from main_completes [OF ok ls names this] assms show "X = Inr ()" by auto
next
  assume "X = Inr ()"
  with assms have run: "main os C = (tr, Inr ())" by simp
  let ?rs = "run_results os C"
  let ?imgs = "map (\<lambda>(i, r). new_image i r) (py_enumerate 1 ?rs)"
  from run obtain ls groups where
    ls: "labels C = LabelList ls"
    and groups: "list_all2 (\<lambda>(i, r) g. box_records i r g) (py_enumerate 1 ?rs) groups"
    and w: "written tr = [(''./instances.json'', document ls ?imgs (concat groups))]"
    by (rule main_document)
  have len: "length groups = length ?rs"
    using groups by (rule groups_structure(1))
  have per: "length (groups ! j) = length (xywhr b) \<and>
                  (\<forall>k < length (xywhr b).
                     jget (groups ! j ! k) ''id'' = Some (JInt (int k + 1)) \<and>
                     py_index (cls b) (int k + 1 - 1) = Inr (cls b ! k) \<and>
                     jget (groups ! j ! k) ''category_id'' =
                       Some (JInt (py_int (cls b ! k) + 1)) \<and>
                     (0 \<le> py_int (cls b ! k) \<and> nat (py_int (cls b ! k)) < length ls \<longrightarrow>
                        jget (categories_of ls ! nat (py_int (cls b ! k))) ''id'' =
                          jget (groups ! j ! k) ''category_id'' \<and>
                        jget (categories_of ls ! nat (py_int (cls b ! k))) ''name'' =
                          Some (JStr (ls ! nat (py_int (cls b ! k))))))"
    if j: "j < length ?rs" and b: "obb (?rs ! j) = Some b" and eq: "length (cls b) = length (xywhr b)"
    for j b
  proof -
    from groups_structure(2) [OF groups j] b have
      l: "list_all2 (\<lambda>(k, x) a. calculate_bbox k (int j + 1) (cls b) x = Inr a)
            (py_enumerate 1 (xywhr b)) (groups ! j)"
      by (auto simp: box_records_def)
    then have glen: "length (groups ! j) = length (xywhr b)"
      by (simp add: list_all2_lengthD [symmetric] length_py_enumerate)
    have "jget (groups ! j ! k) ''id'' = Some (JInt (int k + 1)) \<and>
          py_index (cls b) (int k + 1 - 1) = Inr (cls b ! k) \<and>
          jget (groups ! j ! k) ''category_id'' = Some (JInt (py_int (cls b ! k) + 1)) \<and>
          (0 \<le> py_int (cls b ! k) \<and> nat (py_int (cls b ! k)) < length ls \<longrightarrow>
             jget (categories_of ls ! nat (py_int (cls b ! k))) ''id'' =
               jget (groups ! j ! k) ''category_id'' \<and>
             jget (categories_of ls ! nat (py_int (cls b ! k))) ''name'' =
               Some (JStr (ls ! nat (py_int (cls b ! k)))))"
      if k: "k < length (xywhr b)" for k
    proof -
      from l glen k have "(\<lambda>(k, x) a. calculate_bbox k (int j + 1) (cls b) x = Inr a)
            (py_enumerate 1 (xywhr b) ! k) (groups ! j ! k)"
        by (simp add: list_all2_conv_all_nth)
      with k have calc: "calculate_bbox (1 + int k) (int j + 1) (cls b) (xywhr b ! k) =
            Inr (groups ! j ! k)"
        by (simp add: nth_py_enumerate)
      from k eq have idx: "py_index (cls b) (1 + int k - 1) = Inr (cls b ! k)"
        by (intro py_index_in_range) simp
      from calculate_bbox_Inr(1) [OF calc]
      have id: "jget (groups ! j ! k) ''id'' = Some (JInt (int k + 1))"
        by (simp add: add.commute)
      from calculate_bbox_Inr(3) [OF calc] idx
      have cat: "jget (groups ! j ! k) ''category_id'' = Some (JInt (py_int (cls b ! k) + 1))"
        by simp
      have "jget (categories_of ls ! nat (py_int (cls b ! k))) ''id'' =
               jget (groups ! j ! k) ''category_id'' \<and>
             jget (categories_of ls ! nat (py_int (cls b ! k))) ''name'' =
               Some (JStr (ls ! nat (py_int (cls b ! k))))"
        if "0 \<le> py_int (cls b ! k)" "nat (py_int (cls b ! k)) < length ls"
        using that cat by (simp add: categories_of_nth)
      moreover from idx have "py_index (cls b) (int k + 1 - 1) = Inr (cls b ! k)"
        by (simp add: add.commute)
      ultimately show ?thesis using id cat by blast
    qed
    with glen show ?thesis by blast
  qed
  from ls w len per show "\<exists>ls doc cats groups.
               labels C = LabelList ls \<and>
               written tr = [(''./instances.json'', doc)] \<and>
               jget doc ''categories'' = Some (JList cats) \<and>
               jget doc ''annotations'' = Some (JList (concat groups)) \<and>
               length groups = length (run_results os C) \<and>
               (\<forall>j < length (run_results os C). \<forall>b.
                  obb (run_results os C ! j) = Some b \<and> length (cls b) = length (xywhr b) \<longrightarrow>
                  length (groups ! j) = length (xywhr b) \<and>
                  (\<forall>k < length (xywhr b).
                     jget (groups ! j ! k) ''id'' = Some (JInt (int k + 1)) \<and>
                     py_index (cls b) (int k + 1 - 1) = Inr (cls b ! k) \<and>
                     jget (groups ! j ! k) ''category_id'' =
                       Some (JInt (py_int (cls b ! k) + 1)) \<and>
                     (0 \<le> py_int (cls b ! k) \<and> nat (py_int (cls b ! k)) < length ls \<longrightarrow>
                        jget (cats ! nat (py_int (cls b ! k))) ''id'' =
                          jget (groups ! j ! k) ''category_id'' \<and>
                        jget (cats ! nat (py_int (cls b ! k))) ''name'' =
                          Some (JStr (ls ! nat (py_int (cls b ! k)))))))"
    by (intro exI [of _ ls] exI [of _ "document ls ?imgs (concat groups)"]
        exI [of _ "categories_of ls"] exI [of _ groups])
      (simp add: document_fields)
qed

theorem label_index_in_bounds_witness:
  "main example_env example_constants = (example_trace, Inr ()) \<and>
   obb (run_results example_env example_constants ! 0) =
     Some \<lparr>cls = [1, 0], xywhr = [[10, 20, 4, 6, 0], [1, 2, 3, 4, 0]]\<rparr> \<and>
   (\<exists>ls doc cats groups.
      labels example_constants = LabelList ls \<and>
      written example_trace = [(''./instances.json'', doc)] \<and>
      jget doc ''categories'' = Some (JList cats) \<and>
      jget doc ''annotations'' = Some (JList (concat groups)) \<and>
      length (groups ! 0) = 2 \<and>
      py_index [1, 0 :: real] (int 0 + 1 - 1) = Inr 1 \<and>
      jget (groups ! 0 ! 0) ''category_id'' = Some (JInt 2) \<and>
      jget (cats ! 1) ''id'' = jget (groups ! 0 ! 0) ''category_id'' \<and>
      jget (cats ! 1) ''name'' = Some (JStr ''bus''))"
proof -
  let ?rs = "run_results example_env example_constants"
  let ?b = "\<lparr>cls = [1, 0 :: real], xywhr = [[10, 20, 4, 6, 0], [1, 2, 3, 4, 0 :: real]]\<rparr>"
  have b: "obb (?rs ! 0) = Some ?b"
    by (simp add: example_results example_result_def)
  have j: "0 < length ?rs"
    by (simp add: example_results)
  have eq: "length (cls ?b) = length (xywhr ?b)" by simp
  have k: "0 < length (xywhr ?b)" by simp
  from label_index_in_bounds [OF example_run, THEN conjunct2, THEN conjunct2, THEN mp, OF refl]
  obtain ls doc cats groups where
    ls: "labels example_constants = LabelList ls"
    and w: "written example_trace = [(''./instances.json'', doc)]"
    and c: "jget doc ''categories'' = Some (JList cats)"
    and a: "jget doc ''annotations'' = Some (JList (concat groups))"
    and per: "\<forall>j < length ?rs. \<forall>b.
                  obb (?rs ! j) = Some b \<and> length (cls b) = length (xywhr b) \<longrightarrow>
                  length (groups ! j) = length (xywhr b) \<and>
                  (\<forall>k < length (xywhr b).
                     jget (groups ! j ! k) ''id'' = Some (JInt (int k + 1)) \<and>
                     py_index (cls b) (int k + 1 - 1) = Inr (cls b ! k) \<and>
                     jget (groups ! j ! k) ''category_id'' =
                       Some (JInt (py_int (cls b ! k) + 1)) \<and>
                     (0 \<le> py_int (cls b ! k) \<and> nat (py_int (cls b ! k)) < length ls \<longrightarrow>
                        jget (cats ! nat (py_int (cls b ! k))) ''id'' =
                          jget (groups ! j ! k) ''category_id'' \<and>
                        jget (cats ! nat (py_int (cls b ! k))) ''name'' =
                          Some (JStr (ls ! nat (py_int (cls b ! k))))))"
    by blast
  from ls have lsv: "ls = [''car'', ''bus'']"
    by (simp add: example_constants_def)
  note P = per [rule_format, OF j conjI, OF b eq]
  note P1 = P [THEN conjunct1]
  note P2 = P [THEN conjunct2, rule_format, OF k]
  from P1 have g: "length (groups ! 0) = 2" by simp
  from P2 have i: "py_index [1, 0 :: real] (int 0 + 1 - 1) = Inr 1" by simp
  from P2 have cat: "jget (groups ! 0 ! 0) ''category_id'' = Some (JInt 2)"
    by (simp add: py_int_def)
  from P2 [THEN conjunct2, THEN conjunct2, THEN conjunct2] lsv
  have m: "jget (cats ! 1) ''id'' = jget (groups ! 0 ! 0) ''category_id''"
    "jget (cats ! 1) ''name'' = Some (JStr ''bus'')"
    by (simp_all add: py_int_def)
  from example_run b ls w c a g i cat m show ?thesis by blast
qed

end
